theory Spec2Isabelle
  imports Main
begin

section \<open>The Meteora position monitor and rebalancer\<close>

text \<open>
  A shallow embedding of \<^verbatim>\<open>src/meteora-monitor-bot.ts\<close>. The file holds two programs:
  the class \<^verbatim>\<open>MeteoraMonitor\<close>, which only notifies, and the module with the global
  \<^verbatim>\<open>isRebalancing\<close> and \<^verbatim>\<open>positionStatuses\<close>, which also rebalances.

  The external collaborators (the DLMM client, the RPC connection, the swap router and
  the Telegram client) are not part of the program. What they answer is an input of the
  model, an environment record; what the program asks of them is recorded, in order, as
  a list of events. \<^verbatim>\<open>bot.telegram.sendMessage\<close> is taken to deliver: it appends the
  message to the events and returns.
\<close>

subsection \<open>Errors, big numbers\<close>

text \<open>
  A thrown value is an \<^verbatim>\<open>Error\<close> instance with its message, or any other value.
  The handlers read it in two ways:
  \<^verbatim>\<open>error instanceof Error ? error.message : 'Unknown error occurred'\<close> and
  \<^verbatim>\<open>error.message || 'Unknown error'\<close> (an empty message is falsy).
\<close>

datatype js_error = Error string | Thrown

type_synonym 'a js_result = "js_error + 'a"

fun instanceMessage :: "js_error \<Rightarrow> string" where
  "instanceMessage (Error m) = m"
| "instanceMessage Thrown = ''Unknown error occurred''"

fun messageOr :: "js_error \<Rightarrow> string" where
  "messageOr (Error m) = (if m = [] then ''Unknown error'' else m)"
| "messageOr Thrown = ''Unknown error''"

text \<open>
  \<^verbatim>\<open>BN\<close> is an arbitrary-precision signed integer; \<^verbatim>\<open>div\<close> truncates towards zero.
\<close>

definition bn_div :: "int \<Rightarrow> int \<Rightarrow> int" where
  "bn_div a b = sgn a * sgn b * (\<bar>a\<bar> div \<bar>b\<bar>)"

subsection \<open>Data\<close>

text \<open>
  The module keeps \<^verbatim>\<open>{ isInRange, lastNotified }\<close> per position key; the class keeps
  the interface \<^verbatim>\<open>PositionStatus\<close>, which has the key as a third field.
\<close>

record status =
  isInRange :: bool
  lastNotified :: bool

record PositionStatus = status +
  positionKey :: string

record LbPosition =
  publicKey :: string
  lowerBinId :: int
  upperBinId :: int
  totalXAmount :: int
  totalYAmount :: int
  positionBinData :: "int list"

type_synonym tx = nat
type_synonym route = string

datatype distance = BinsBelow int | BinsAbove int

datatype message =
    OutOfRangeAlert string int int int distance int int
  | BackInRange string int
  | ErrorCheckingPositions string
  | AlreadyInProgress
  | StartingRebalance
  | RemovedLiquidity string string
  | FailedRemoveLiquidity string js_error
  | ExecutingSwap route
  | SwapCompleted route
  | SwapFailed string
  | NewPositionCreated string string int int int int
  | FailedCreatePosition string
  | RebalancingCompleted
  | RebalancingFailed string

datatype operation =
    RemoveLiquidity string "int option" "int option"
  | SubmitTransaction tx
  | GetRoutes int bool
  | ExecuteRoute route
  | Wait nat
  | InitializePositionAndAddLiquidity string int int int int

datatype event = Sent message | Did operation

text \<open>\<^verbatim>\<open>dlmm.removeLiquidity\<close> returns one transaction or an array of them.\<close>

datatype removal = SingleTx tx | TxArray "tx list"

text \<open>
  What the collaborators answer during one call of \<^verbatim>\<open>rebalancePosition\<close>.
  \<open>activeBin_price\<close> is \<open>None\<close> when the active bin or its price is missing, and
  otherwise holds \<^verbatim>\<open>Math.floor(Number(activeBin.price) * 1e6)\<close>, the integer that becomes
  \<^verbatim>\<open>priceBN\<close>; the floating-point product itself is not modelled.
  \<open>generated_position\<close> is the key of \<^verbatim>\<open>Keypair.generate()\<close>.
\<close>

record rebalance_env =
  removeLiquidity_result :: "removal js_result"
  sendAndConfirm_result :: "tx \<Rightarrow> string js_result"
  balances_first :: "(int \<times> int) js_result"
  activeBin_price :: "int option js_result"
  getRoutes_result :: "route list js_result"
  executeRoute_result :: "unit js_result"
  balances_final :: "(int \<times> int) js_result"
  activeBin_binId :: "int js_result"
  generated_position :: string
  initializePosition_result :: "tx js_result"

subsection \<open>Effects of the helpers\<close>

text \<open>
  The helpers \<^verbatim>\<open>swap\<close>, \<^verbatim>\<open>createNewPosition\<close> and \<^verbatim>\<open>removePositionLiquidity\<close> read and
  write no module variable. Each is modelled by the events it produces and its outcome:
  \<open>Inl\<close> the thrown value, \<open>Inr\<close> the returned one.
\<close>

type_synonym 'a io = "event list \<times> 'a js_result"

definition ret :: "'a \<Rightarrow> 'a io" where
  "ret x = ([], Inr x)"

definition throw :: "js_error \<Rightarrow> 'a io" where
  "throw e = ([], Inl e)"

definition andThen :: "'a io \<Rightarrow> ('a \<Rightarrow> 'b io) \<Rightarrow> 'b io" where
  "andThen m f =
     (case m of
        (evs, Inl e) \<Rightarrow> (evs, Inl e)
      | (evs, Inr x) \<Rightarrow> (case f x of (evs', r) \<Rightarrow> (evs @ evs', r)))"

definition tryCatch :: "'a io \<Rightarrow> (js_error \<Rightarrow> 'a io) \<Rightarrow> 'a io" where
  "tryCatch m h =
     (case m of
        (evs, Inl e) \<Rightarrow> (case h e of (evs', r) \<Rightarrow> (evs @ evs', r))
      | (evs, Inr x) \<Rightarrow> (evs, Inr x))"

definition sendMessage :: "message \<Rightarrow> unit io" where
  "sendMessage m = ([Sent m], Inr ())"

definition request :: "operation \<Rightarrow> 'a js_result \<Rightarrow> 'a io" where
  "request op r = ([Did op], r)"

definition query :: "'a js_result \<Rightarrow> 'a io" where
  "query r = ([], r)"

subsection \<open>removePositionLiquidity\<close>

text \<open>
  The loop over the transactions, inside the \<^verbatim>\<open>try\<close>: a submission that throws ends
  the loop, since the \<^verbatim>\<open>try\<close> encloses the whole \<^verbatim>\<open>for\<close>.
\<close>

fun submitAll :: "rebalance_env \<Rightarrow> string \<Rightarrow> tx list \<Rightarrow> unit io" where
  "submitAll env key [] = ret ()"
| "submitAll env key (t # ts) =
     andThen (request (SubmitTransaction t) (sendAndConfirm_result env t)) (\<lambda>txHash.
     andThen (sendMessage (RemovedLiquidity key txHash)) (\<lambda>_.
     submitAll env key ts))"

definition firstBin :: "int list \<Rightarrow> int option" where
  "firstBin bins = (case bins of [] \<Rightarrow> None | b # _ \<Rightarrow> Some b)"

definition lastBin :: "int list \<Rightarrow> int option" where
  "lastBin bins = (if bins = [] then None else Some (last bins))"

definition transactionsOf :: "removal \<Rightarrow> tx list" where
  "transactionsOf r = (case r of SingleTx t \<Rightarrow> [t] | TxArray ts \<Rightarrow> ts)"

definition removePositionLiquidity :: "rebalance_env \<Rightarrow> LbPosition \<Rightarrow> unit io" where
  "removePositionLiquidity env position =
     (let binIdsToRemove = positionBinData position in
      andThen (request (RemoveLiquidity (publicKey position)
                 (firstBin binIdsToRemove) (lastBin binIdsToRemove))
                 (removeLiquidity_result env)) (\<lambda>removeLiquidityTxs.
      tryCatch (submitAll env (publicKey position) (transactionsOf removeLiquidityTxs))
        (\<lambda>error. sendMessage (FailedRemoveLiquidity (publicKey position) error))))"

subsection \<open>swap\<close>

definition swap :: "rebalance_env \<Rightarrow> int \<Rightarrow> bool \<Rightarrow> unit io" where
  "swap env amount swapYToX =
     tryCatch
       (andThen (request (GetRoutes amount swapYToX) (getRoutes_result env)) (\<lambda>routes.
        case routes of
          [] \<Rightarrow> throw (Error ''No routes found for the swap'')
        | bestRoute # _ \<Rightarrow>
            andThen (sendMessage (ExecutingSwap bestRoute)) (\<lambda>_.
            andThen (request (ExecuteRoute bestRoute) (executeRoute_result env)) (\<lambda>_.
            sendMessage (SwapCompleted bestRoute)))))
       (\<lambda>error.
          andThen (sendMessage (SwapFailed (messageOr error))) (\<lambda>_. throw error))"

subsection \<open>createNewPosition\<close>

text \<open>
  \<^verbatim>\<open>xAmount || new BN(0)\<close> and \<^verbatim>\<open>yAmount || new BN(100 * 10 ** 6)\<close> keep the amounts
  passed in: a \<^verbatim>\<open>BN\<close> object is never falsy.
\<close>

definition totalIntervalRange :: int where
  "totalIntervalRange = 5"

definition createNewPosition ::
    "rebalance_env \<Rightarrow> string \<Rightarrow> int \<Rightarrow> int \<Rightarrow> unit io" where
  "createNewPosition env newPosition xAmount yAmount =
     andThen (query (activeBin_binId env)) (\<lambda>binId.
     let maxBinId = binId + totalIntervalRange;
         minBinId = binId - totalIntervalRange;
         totalXAmount = xAmount;
         totalYAmount = yAmount
     in
     andThen (request (InitializePositionAndAddLiquidity newPosition minBinId maxBinId
                 totalXAmount totalYAmount) (initializePosition_result env)) (\<lambda>createPositionTx.
     tryCatch
       (andThen (request (SubmitTransaction createPositionTx)
                   (sendAndConfirm_result env createPositionTx)) (\<lambda>txHash.
        sendMessage (NewPositionCreated newPosition txHash minBinId maxBinId xAmount yAmount)))
       (\<lambda>error.
          andThen (sendMessage (FailedCreatePosition (messageOr error))) (\<lambda>_. throw error))))"

subsection \<open>rebalancePosition\<close>

text \<open>
  The sizing of the swap, lines 437 to 458 of the module: the value of X is its balance,
  the value of Y is its balance times the scaled price, over \<open>10\<^sup>6\<close>.
\<close>

record swap_plan =
  swapAmount :: int
  swapYToX :: bool
  performSwap :: bool

definition planSwap :: "int \<Rightarrow> int \<Rightarrow> int \<Rightarrow> swap_plan" where
  "planSwap xBalance yBalance priceBN =
     (let xValue = xBalance;
          yValue = bn_div (yBalance * priceBN) 1000000;
          totalValue = xValue + yValue;
          (amount, yToX) =
            (if xValue > yValue then (bn_div xBalance 2, False)
             else (bn_div yBalance 2, True));
          minSwapThreshold = bn_div totalValue 100;
          valueToCheck = (if yToX then yValue else xValue)
      in \<lparr>swapAmount = amount, swapYToX = yToX,
          performSwap = (amount > 0 \<and> valueToCheck > minSwapThreshold)\<rparr>)"

definition reservedSol :: int where
  "reservedSol = 70000000"

text \<open>
  The body of the \<^verbatim>\<open>try\<close> block of \<^verbatim>\<open>rebalancePosition\<close>, cut after the withdrawal and
  after the swap: \<open>swapStage\<close> is lines 424 to 460 (balances, price, sizing, swap),
  \<open>depositStage\<close> is lines 462 to 484 (wait, balances, reserve, new position).
\<close>

definition swapStage :: "rebalance_env \<Rightarrow> unit io" where
  "swapStage env =
     andThen (query (balances_first env)) (\<lambda>(xBalance, yBalance).
     andThen (query (activeBin_price env)) (\<lambda>activeBin.
     case activeBin of
       None \<Rightarrow> throw (Error ''Could not get active bin price'')
     | Some priceBN \<Rightarrow>
         (let p = planSwap xBalance yBalance priceBN in
          if performSwap p then swap env (swapAmount p) (swapYToX p) else ret ())))"

definition depositStage :: "rebalance_env \<Rightarrow> unit io" where
  "depositStage env =
     andThen (request (Wait 50000) (Inr ())) (\<lambda>_.
     andThen (query (balances_final env)) (\<lambda>(finalXBalance, finalYBalance).
     let solToDeposit =
           (if finalYBalance > reservedSol then finalYBalance - reservedSol else 0)
     in
     andThen (createNewPosition env (generated_position env) finalXBalance solToDeposit) (\<lambda>_.
     sendMessage RebalancingCompleted)))"

definition rebalanceTry :: "rebalance_env \<Rightarrow> LbPosition \<Rightarrow> unit io" where
  "rebalanceTry env position =
     andThen (sendMessage StartingRebalance) (\<lambda>_.
     andThen (removePositionLiquidity env position) (\<lambda>_.
     andThen (swapStage env) (\<lambda>_.
     depositStage env)))"

text \<open>
  The module's variables, and the events so far. \<open>tracker\<close> is the part the class
  \<^verbatim>\<open>MeteoraMonitor\<close> has as well.
\<close>

record 'st tracker =
  positionStatuses :: "string \<rightharpoonup> 'st"
  events :: "event list"

record bot_state = "status tracker" +
  isRebalancing :: bool

definition emit :: "event list \<Rightarrow> ('st, 'z) tracker_scheme \<Rightarrow> ('st, 'z) tracker_scheme" where
  "emit evs s = s\<lparr>events := events s @ evs\<rparr>"

text \<open>The \<^verbatim>\<open>try\<close> block with its \<^verbatim>\<open>catch\<close>, which reports and throws the error again.\<close>

definition rebalanceTryCatch :: "rebalance_env \<Rightarrow> LbPosition \<Rightarrow> unit io" where
  "rebalanceTryCatch env position =
     tryCatch (rebalanceTry env position)
       (\<lambda>error. andThen (sendMessage (RebalancingFailed (messageOr error)))
          (\<lambda>_. throw error))"

text \<open>The entry guard, the assignment before the \<^verbatim>\<open>try\<close>, and the \<^verbatim>\<open>finally\<close>.\<close>

definition rebalancePosition ::
    "rebalance_env \<Rightarrow> LbPosition \<Rightarrow> bot_state \<Rightarrow> bot_state \<times> unit js_result" where
  "rebalancePosition env position s =
     (if isRebalancing s then (emit [Sent AlreadyInProgress] s, Inr ())
      else
        (let s1 = s\<lparr>isRebalancing := True\<rparr>;
             (evs, r) = rebalanceTryCatch env position;
             s2 = emit evs s1
         in (s2\<lparr>isRebalancing := False\<rparr>, r)))"

subsection \<open>checkPositions, module version\<close>

text \<open>
  What the collaborators answer during one monitoring cycle. Each position comes with
  the environment in which its rebalance runs, should the cycle start one.
\<close>

record cycle_env =
  positions_result :: "(LbPosition \<times> rebalance_env) list js_result"
  activeBin_result :: "int js_result"

definition inRange :: "LbPosition \<Rightarrow> int \<Rightarrow> bool" where
  "inRange position activeBinId =
     (lowerBinId position \<le> activeBinId \<and> activeBinId \<le> upperBinId position)"

definition generateOutOfRangeMessage :: "LbPosition \<Rightarrow> int \<Rightarrow> int \<Rightarrow> int \<Rightarrow> message" where
  "generateOutOfRangeMessage position activeBinId lowerBin upperBin =
     OutOfRangeAlert (publicKey position) activeBinId lowerBin upperBin
       (if activeBinId < lowerBin then BinsBelow (lowerBin - activeBinId)
        else BinsAbove (activeBinId - upperBin))
       (totalXAmount position) (totalYAmount position)"

definition setStatus ::
    "string \<Rightarrow> 'st \<Rightarrow> ('st, 'z) tracker_scheme \<Rightarrow> ('st, 'z) tracker_scheme" where
  "setStatus key st s = s\<lparr>positionStatuses := (positionStatuses s)(key \<mapsto> st)\<rparr>"

definition getStatus :: "bot_state \<Rightarrow> string \<Rightarrow> status" where
  "getStatus s key =
     (case positionStatuses s key of
        Some st \<Rightarrow> st
      | None \<Rightarrow> \<lparr>isInRange = True, lastNotified = False\<rparr>)"

text \<open>
  The body of the \<^verbatim>\<open>for\<close> loop. When \<^verbatim>\<open>rebalancePosition\<close> throws, the loop is left
  before \<^verbatim>\<open>status.lastNotified = true\<close> and before \<^verbatim>\<open>positionStatuses.set\<close>.
\<close>

fun checkLoop ::
    "int \<Rightarrow> (LbPosition \<times> rebalance_env) list \<Rightarrow> bot_state \<Rightarrow> bot_state \<times> unit js_result" where
  "checkLoop activeBinId [] s = (s, Inr ())"
| "checkLoop activeBinId ((position, env) # rest) s =
     (let lowerBin = lowerBinId position;
          upperBin = upperBinId position;
          isInRange' = inRange position activeBinId;
          positionKey = publicKey position;
          st = getStatus s positionKey
      in
      if \<not> isInRange' \<and> \<not> lastNotified st then
        (case rebalancePosition env position
                (emit [Sent (generateOutOfRangeMessage position activeBinId lowerBin upperBin)] s) of
           (s', Inl error) \<Rightarrow> (s', Inl error)
         | (s', Inr _) \<Rightarrow>
             checkLoop activeBinId rest
               (setStatus positionKey (st\<lparr>lastNotified := True, isInRange := isInRange'\<rparr>) s'))
      else if isInRange' \<and> lastNotified st then
        checkLoop activeBinId rest
          (setStatus positionKey (st\<lparr>lastNotified := False, isInRange := isInRange'\<rparr>)
             (emit [Sent (BackInRange positionKey activeBinId)] s))
      else
        checkLoop activeBinId rest (setStatus positionKey (st\<lparr>isInRange := isInRange'\<rparr>) s))"

definition catchCheck :: "js_error \<Rightarrow> ('st, 'z) tracker_scheme \<Rightarrow> ('st, 'z) tracker_scheme" where
  "catchCheck error s = emit [Sent (ErrorCheckingPositions (instanceMessage error))] s"

definition checkPositions :: "cycle_env \<Rightarrow> bot_state \<Rightarrow> bot_state" where
  "checkPositions cenv s =
     (case positions_result cenv of
        Inl error \<Rightarrow> catchCheck error s
      | Inr positions \<Rightarrow>
          (case activeBin_result cenv of
             Inl error \<Rightarrow> catchCheck error s
           | Inr activeBinId \<Rightarrow>
               (case checkLoop activeBinId positions s of
                  (s', Inl error) \<Rightarrow> catchCheck error s'
                | (s', Inr _) \<Rightarrow> s')))"

text \<open>
  \<^verbatim>\<open>startMonitoring\<close> runs one cycle at once and then one per period; here the cycles
  run one after the other, from the module's initial values.
\<close>

definition initialState :: bot_state where
  "initialState = \<lparr>positionStatuses = Map.empty, events = [], isRebalancing = False\<rparr>"

fun cycles :: "cycle_env list \<Rightarrow> bot_state \<Rightarrow> bot_state" where
  "cycles [] s = s"
| "cycles (cenv # rest) s = cycles rest (checkPositions cenv s)"

subsection \<open>checkPositions, class version\<close>

record monitor_env =
  userPositions_result :: "LbPosition list js_result"
  getActiveBin_result :: "int js_result"

definition monitorStatus :: "PositionStatus tracker \<Rightarrow> string \<Rightarrow> PositionStatus" where
  "monitorStatus s key =
     (case positionStatuses s key of
        Some st \<Rightarrow> st
      | None \<Rightarrow> \<lparr>isInRange = True, lastNotified = False, positionKey = key\<rparr>)"

fun monitorLoop ::
    "int \<Rightarrow> LbPosition list \<Rightarrow> PositionStatus tracker \<Rightarrow> PositionStatus tracker" where
  "monitorLoop activeBinId [] s = s"
| "monitorLoop activeBinId (position # rest) s =
     (let lowerBin = lowerBinId position;
          upperBin = upperBinId position;
          isInRange' = inRange position activeBinId;
          key = publicKey position;
          st = monitorStatus s key
      in
      if \<not> isInRange' \<and> \<not> lastNotified st then
        monitorLoop activeBinId rest
          (setStatus key (st\<lparr>lastNotified := True, isInRange := isInRange'\<rparr>)
             (emit [Sent (generateOutOfRangeMessage position activeBinId lowerBin upperBin)] s))
      else if isInRange' \<and> lastNotified st then
        monitorLoop activeBinId rest
          (setStatus key (st\<lparr>lastNotified := False, isInRange := isInRange'\<rparr>)
             (emit [Sent (BackInRange key activeBinId)] s))
      else
        monitorLoop activeBinId rest (setStatus key (st\<lparr>isInRange := isInRange'\<rparr>) s))"

definition monitorCheckPositions ::
    "monitor_env \<Rightarrow> PositionStatus tracker \<Rightarrow> PositionStatus tracker" where
  "monitorCheckPositions menv s =
     (case userPositions_result menv of
        Inl error \<Rightarrow> catchCheck error s
      | Inr positions \<Rightarrow>
          (case getActiveBin_result menv of
             Inl error \<Rightarrow> catchCheck error s
           | Inr activeBinId \<Rightarrow> monitorLoop activeBinId positions s))"

definition newMonitor :: "PositionStatus tracker" where
  "newMonitor = \<lparr>positionStatuses = Map.empty, events = []\<rparr>"

fun monitorCycles :: "monitor_env list \<Rightarrow> PositionStatus tracker \<Rightarrow> PositionStatus tracker" where
  "monitorCycles [] s = s"
| "monitorCycles (menv # rest) s = monitorCycles rest (monitorCheckPositions menv s)"

subsection \<open>Reading the events\<close>

fun isOutAlert :: "string \<Rightarrow> event \<Rightarrow> bool" where
  "isOutAlert k (Sent (OutOfRangeAlert k' _ _ _ _ _ _)) = (k = k')"
| "isOutAlert k _ = False"

fun isBackAlert :: "string \<Rightarrow> event \<Rightarrow> bool" where
  "isBackAlert k (Sent (BackInRange k' _)) = (k = k')"
| "isBackAlert k _ = False"

definition outAlerts :: "string \<Rightarrow> event list \<Rightarrow> nat" where
  "outAlerts k evs = length (filter (isOutAlert k) evs)"

definition backAlerts :: "string \<Rightarrow> event list \<Rightarrow> nat" where
  "backAlerts k evs = length (filter (isBackAlert k) evs)"

fun submitted :: "event list \<Rightarrow> tx list" where
  "submitted [] = []"
| "submitted (Did (SubmitTransaction t) # evs) = t # submitted evs"
| "submitted (_ # evs) = submitted evs"

fun swapsRequested :: "event list \<Rightarrow> (int \<times> bool) list" where
  "swapsRequested [] = []"
| "swapsRequested (Did (GetRoutes a d) # evs) = (a, d) # swapsRequested evs"
| "swapsRequested (_ # evs) = swapsRequested evs"

fun deposits :: "event list \<Rightarrow> (int \<times> int \<times> int \<times> int) list" where
  "deposits [] = []"
| "deposits (Did (InitializePositionAndAddLiquidity _ lo hi x y) # evs) =
     (lo, hi, x, y) # deposits evs"
| "deposits (_ # evs) = deposits evs"

fun isPipelineOp :: "event \<Rightarrow> bool" where
  "isPipelineOp (Did _) = True"
| "isPipelineOp (Sent _) = False"

fun isRemovalFailure :: "event \<Rightarrow> bool" where
  "isRemovalFailure (Sent (FailedRemoveLiquidity _ _)) = True"
| "isRemovalFailure _ = False"

fun isAlert :: "event \<Rightarrow> bool" where
  "isAlert (Sent (OutOfRangeAlert _ _ _ _ _ _ _)) = True"
| "isAlert (Sent (BackInRange _ _)) = True"
| "isAlert _ = False"

subsection \<open>Cycles that observe one position\<close>

definition poll :: "LbPosition \<Rightarrow> int \<Rightarrow> rebalance_env \<Rightarrow> bot_state \<Rightarrow> bot_state" where
  "poll position activeBinId env s =
     checkPositions
       \<lparr>positions_result = Inr [(position, env)], activeBin_result = Inr activeBinId\<rparr> s"

fun polls :: "(LbPosition \<times> int \<times> rebalance_env) list \<Rightarrow> bot_state \<Rightarrow> bot_state" where
  "polls [] s = s"
| "polls ((position, activeBinId, env) # rest) s = polls rest (poll position activeBinId env s)"

definition monitorPoll ::
    "LbPosition \<Rightarrow> int \<Rightarrow> PositionStatus tracker \<Rightarrow> PositionStatus tracker" where
  "monitorPoll position activeBinId s =
     monitorCheckPositions
       \<lparr>userPositions_result = Inr [position], getActiveBin_result = Inr activeBinId\<rparr> s"

fun monitorPolls :: "(LbPosition \<times> int) list \<Rightarrow> PositionStatus tracker \<Rightarrow> PositionStatus tracker" where
  "monitorPolls [] s = s"
| "monitorPolls ((position, activeBinId) # rest) s =
     monitorPolls rest (monitorPoll position activeBinId s)"

text \<open>
  A second trigger while a first one is in flight. An \<^verbatim>\<open>async\<close> function runs without
  interruption up to its first \<^verbatim>\<open>await\<close>, so the first call has tested and set
  \<^verbatim>\<open>isRebalancing\<close> before any other call can start; the second call runs at one of the
  first call's \<^verbatim>\<open>await\<close>s, after \<open>n\<close> of its events; the first call then goes on to its
  \<^verbatim>\<open>finally\<close>.
\<close>

definition secondTriggerInFlight ::
    "nat \<Rightarrow> rebalance_env \<Rightarrow> rebalance_env \<Rightarrow> LbPosition \<Rightarrow> bot_state \<Rightarrow> bot_state" where
  "secondTriggerInFlight n env1 env2 position s =
     (let s1 = s\<lparr>isRebalancing := True\<rparr>;
          (evs, r) = rebalanceTryCatch env1 position;
          (s2, r2) = rebalancePosition env2 position (emit (take n evs) s1);
          s3 = emit (drop n evs) s2
      in s3\<lparr>isRebalancing := False\<rparr>)"

subsection \<open>Concrete inputs\<close>

text \<open>
  The position of the spec's scenarios 1 to 3, with range 100 to 110, and environments
  in which every collaborator answers, or one of them fails.
\<close>

definition scenarioPosition :: LbPosition where
  "scenarioPosition =
     \<lparr>publicKey = ''P1'', lowerBinId = 100, upperBinId = 110,
      totalXAmount = 1000, totalYAmount = 400, positionBinData = [100, 105, 110]\<rparr>"

definition calmEnv :: rebalance_env where
  "calmEnv =
     \<lparr>removeLiquidity_result = Inr (TxArray [1, 2]),
      sendAndConfirm_result = (\<lambda>t. Inr ''sig''),
      balances_first = Inr (1000, 400),
      activeBin_price = Inr (Some 1000000),
      getRoutes_result = Inr [''route''],
      executeRoute_result = Inr (),
      balances_final = Inr (500, 100000400),
      activeBin_binId = Inr 115,
      generated_position = ''P2'',
      initializePosition_result = Inr 3\<rparr>"

definition noSwapEnv :: rebalance_env where
  "noSwapEnv = calmEnv\<lparr>balances_first := Inr (1, 1)\<rparr>"

definition withdrawFailsEnv :: rebalance_env where
  "withdrawFailsEnv =
     calmEnv\<lparr>removeLiquidity_result := Inr (TxArray [1, 2, 4]),
       sendAndConfirm_result :=
         (\<lambda>t. if t = 2 then Inl (Error ''timeout'') else Inr ''sig'')\<rparr>"

definition removalThrowsEnv :: rebalance_env where
  "removalThrowsEnv = calmEnv\<lparr>removeLiquidity_result := Inl (Error ''rpc'')\<rparr>"

definition swapFailsEnv :: rebalance_env where
  "swapFailsEnv = calmEnv\<lparr>executeRoute_result := Inl (Error ''slippage'')\<rparr>"

definition depositFailsEnv :: rebalance_env where
  "depositFailsEnv =
     calmEnv\<lparr>sendAndConfirm_result :=
       (\<lambda>t. if t = 3 then Inl (Error ''expired'') else Inr ''sig'')\<rparr>"

text \<open>
  Cycles over the scenario's position with the active bin at 115: one whose rebalance
  throws in the withdrawal, and one whose rebalance completes.
\<close>

definition abortedCycle :: cycle_env where
  "abortedCycle =
     \<lparr>positions_result = Inr [(scenarioPosition, removalThrowsEnv)],
      activeBin_result = Inr 115\<rparr>"

definition completedCycle :: cycle_env where
  "completedCycle =
     \<lparr>positions_result = Inr [(scenarioPosition, calmEnv)], activeBin_result = Inr 115\<rparr>"

definition outOfRangeRound :: monitor_env where
  "outOfRangeRound =
     \<lparr>userPositions_result = Inr [scenarioPosition], getActiveBin_result = Inr 115\<rparr>"

text \<open>States: the position tracked as out of range, and the lock held.\<close>

definition trackedState :: bot_state where
  "trackedState =
     \<lparr>positionStatuses = [''P1'' \<mapsto> \<lparr>isInRange = False, lastNotified = True\<rparr>],
      events = [], isRebalancing = False\<rparr>"

definition heldState :: bot_state where
  "heldState = initialState\<lparr>isRebalancing := True\<rparr>"

definition trackedMonitor :: "PositionStatus tracker" where
  "trackedMonitor =
     \<lparr>positionStatuses =
        [''P1'' \<mapsto> \<lparr>isInRange = False, lastNotified = True, positionKey = ''P1''\<rparr>],
      events = []\<rparr>"

section \<open>Properties\<close>

subsection \<open>Big-number division\<close>

lemma bn_div_nonneg: "0 \<le> a \<Longrightarrow> 0 < b \<Longrightarrow> bn_div a b = a div b"
  by (cases "a = 0") (simp_all add: bn_div_def)

subsection \<open>Events and outcome of the combinators\<close>

lemma snd_andThen:
  "snd (andThen m f) = (case snd m of Inl e \<Rightarrow> Inl e | Inr x \<Rightarrow> snd (f x))"
  by (cases m) (auto simp: andThen_def split: sum.splits prod.splits)

lemma fst_andThen:
  "fst (andThen m f) = (case snd m of Inl e \<Rightarrow> fst m | Inr x \<Rightarrow> fst m @ fst (f x))"
  by (cases m) (auto simp: andThen_def split: sum.splits prod.splits)

lemma snd_tryCatch:
  "snd (tryCatch m h) = (case snd m of Inl e \<Rightarrow> snd (h e) | Inr x \<Rightarrow> Inr x)"
  by (cases m) (auto simp: tryCatch_def split: sum.splits prod.splits)

lemma fst_tryCatch:
  "fst (tryCatch m h) = (case snd m of Inl e \<Rightarrow> fst m @ fst (h e) | Inr x \<Rightarrow> fst m)"
  by (cases m) (auto simp: tryCatch_def split: sum.splits prod.splits)

lemma io_basic [simp]:
  "fst (ret x) = []" "snd (ret x) = Inr x"
  "fst (throw e) = []" "snd (throw e) = Inl e"
  "fst (sendMessage m) = [Sent m]" "snd (sendMessage m) = Inr ()"
  "fst (request op r) = [Did op]" "snd (request op r) = r"
  "fst (query r) = []" "snd (query r) = r"
  by (simp_all add: ret_def throw_def sendMessage_def request_def query_def)

lemmas io_simps = fst_andThen snd_andThen fst_tryCatch snd_tryCatch

subsection \<open>Reading a concatenation of events\<close>

lemma deposits_append [simp]: "deposits (xs @ ys) = deposits xs @ deposits ys"
  by (induction xs rule: deposits.induct) simp_all

lemma swapsRequested_append [simp]:
  "swapsRequested (xs @ ys) = swapsRequested xs @ swapsRequested ys"
  by (induction xs rule: swapsRequested.induct) simp_all

lemma submitted_append [simp]: "submitted (xs @ ys) = submitted xs @ submitted ys"
  by (induction xs rule: submitted.induct) simp_all

lemma outAlerts_append [simp]: "outAlerts k (xs @ ys) = outAlerts k xs + outAlerts k ys"
  by (simp add: outAlerts_def)

lemma backAlerts_append [simp]: "backAlerts k (xs @ ys) = backAlerts k xs + backAlerts k ys"
  by (simp add: backAlerts_def)

lemma isOutAlert_isAlert: "isOutAlert k ev \<Longrightarrow> isAlert ev"
  by (induction k ev rule: isOutAlert.induct) simp_all

lemma isBackAlert_isAlert: "isBackAlert k ev \<Longrightarrow> isAlert ev"
  by (induction k ev rule: isBackAlert.induct) simp_all

subsection \<open>The events of each stage\<close>

lemma submitAll_quiet:
  "deposits (fst (submitAll env key ts)) = [] \<and>
   swapsRequested (fst (submitAll env key ts)) = [] \<and>
   filter isAlert (fst (submitAll env key ts)) = []"
  by (induction ts) (simp_all add: io_simps split: sum.splits)

lemma removePositionLiquidity_quiet:
  "deposits (fst (removePositionLiquidity env position)) = [] \<and>
   swapsRequested (fst (removePositionLiquidity env position)) = [] \<and>
   filter isAlert (fst (removePositionLiquidity env position)) = []"
  by (simp add: removePositionLiquidity_def Let_def io_simps submitAll_quiet split: sum.splits)

lemma removePositionLiquidity_snd:
  "snd (removePositionLiquidity env position) =
     (case removeLiquidity_result env of Inl e \<Rightarrow> Inl e | Inr r \<Rightarrow> Inr ())"
  by (simp add: removePositionLiquidity_def Let_def io_simps split: sum.splits)

lemma swap_quiet:
  "deposits (fst (swap env amount d)) = [] \<and>
   swapsRequested (fst (swap env amount d)) = [(amount, d)] \<and>
   filter isAlert (fst (swap env amount d)) = []"
  by (simp add: swap_def io_simps split: sum.splits list.splits)

lemma swapStage_quiet:
  "deposits (fst (swapStage env)) = [] \<and> filter isAlert (fst (swapStage env)) = []"
  by (simp add: swapStage_def Let_def io_simps swap_quiet case_prod_beta
      split: sum.splits option.splits)

lemma swapStage_swaps:
  assumes "balances_first env = Inr (x, y)" and "activeBin_price env = Inr (Some p)"
  shows "swapsRequested (fst (swapStage env)) =
           (if performSwap (planSwap x y p)
            then [(swapAmount (planSwap x y p), swapYToX (planSwap x y p))] else [])"
  using assms by (simp add: swapStage_def Let_def io_simps swap_quiet)

lemma createNewPosition_quiet:
  "swapsRequested (fst (createNewPosition env np x y)) = [] \<and>
   filter isAlert (fst (createNewPosition env np x y)) = []"
  by (simp add: createNewPosition_def Let_def io_simps split: sum.splits)

lemma depositStage_quiet:
  "swapsRequested (fst (depositStage env)) = [] \<and>
   filter isAlert (fst (depositStage env)) = []"
  by (simp add: depositStage_def Let_def io_simps createNewPosition_quiet case_prod_beta
      split: sum.splits)

lemma rebalanceTry_quiet: "filter isAlert (fst (rebalanceTry env position)) = []"
  by (simp add: rebalanceTry_def io_simps removePositionLiquidity_quiet swapStage_quiet
      depositStage_quiet split: sum.splits)

subsection \<open>rebalancePosition\<close>

lemma rebalanceTryCatch_snd: "snd (rebalanceTryCatch env position) = snd (rebalanceTry env position)"
  by (simp add: rebalanceTryCatch_def io_simps split: sum.splits)

lemma rebalanceTryCatch_fst:
  "fst (rebalanceTryCatch env position) =
     fst (rebalanceTry env position) @
       (case snd (rebalanceTry env position) of
          Inl e \<Rightarrow> [Sent (RebalancingFailed (messageOr e))] | Inr _ \<Rightarrow> [])"
  by (simp add: rebalanceTryCatch_def io_simps split: sum.splits)

lemma rebalancePosition_fst:
  "fst (rebalancePosition env position s) =
     (if isRebalancing s then emit [Sent AlreadyInProgress] s
      else (emit (fst (rebalanceTryCatch env position)) s)\<lparr>isRebalancing := False\<rparr>)"
  by (simp add: rebalancePosition_def Let_def case_prod_beta emit_def)

lemma rebalancePosition_snd:
  "snd (rebalancePosition env position s) =
     (if isRebalancing s then Inr () else snd (rebalanceTry env position))"
  by (simp add: rebalancePosition_def Let_def case_prod_beta rebalanceTryCatch_snd)

lemma rebalancePosition_keeps:
  "positionStatuses (fst (rebalancePosition env position s)) = positionStatuses s"
  "isRebalancing (fst (rebalancePosition env position s)) = isRebalancing s"
  by (simp_all add: rebalancePosition_fst emit_def)

subsection \<open>Runs on the concrete inputs\<close>

lemmas run_defs =
  rebalanceTry_def removePositionLiquidity_def swapStage_def depositStage_def
  createNewPosition_def swap_def planSwap_def bn_div_def Let_def io_simps
  reservedSol_def totalIntervalRange_def transactionsOf_def firstBin_def lastBin_def
  scenarioPosition_def

lemma calm_run:
  "rebalanceTry calmEnv scenarioPosition =
     ([Sent StartingRebalance,
       Did (RemoveLiquidity ''P1'' (Some 100) (Some 110)),
       Did (SubmitTransaction 1), Sent (RemovedLiquidity ''P1'' ''sig''),
       Did (SubmitTransaction 2), Sent (RemovedLiquidity ''P1'' ''sig''),
       Did (GetRoutes 500 False), Sent (ExecutingSwap ''route''),
       Did (ExecuteRoute ''route''), Sent (SwapCompleted ''route''),
       Did (Wait 50000),
       Did (InitializePositionAndAddLiquidity ''P2'' 110 120 500 30000400),
       Did (SubmitTransaction 3),
       Sent (NewPositionCreated ''P2'' ''sig'' 110 120 500 30000400),
       Sent RebalancingCompleted], Inr ())"
  by (simp add: prod_eq_iff run_defs calmEnv_def)

lemma swapFails_run:
  "rebalanceTry swapFailsEnv scenarioPosition =
     ([Sent StartingRebalance,
       Did (RemoveLiquidity ''P1'' (Some 100) (Some 110)),
       Did (SubmitTransaction 1), Sent (RemovedLiquidity ''P1'' ''sig''),
       Did (SubmitTransaction 2), Sent (RemovedLiquidity ''P1'' ''sig''),
       Did (GetRoutes 500 False), Sent (ExecutingSwap ''route''),
       Did (ExecuteRoute ''route''), Sent (SwapFailed ''slippage'')],
      Inl (Error ''slippage''))"
  by (simp add: prod_eq_iff run_defs calmEnv_def swapFailsEnv_def)

lemma withdrawFails_run:
  "rebalanceTry withdrawFailsEnv scenarioPosition =
     ([Sent StartingRebalance,
       Did (RemoveLiquidity ''P1'' (Some 100) (Some 110)),
       Did (SubmitTransaction 1), Sent (RemovedLiquidity ''P1'' ''sig''),
       Did (SubmitTransaction 2),
       Sent (FailedRemoveLiquidity ''P1'' (Error ''timeout'')),
       Did (GetRoutes 500 False), Sent (ExecutingSwap ''route''),
       Did (ExecuteRoute ''route''), Sent (SwapCompleted ''route''),
       Did (Wait 50000),
       Did (InitializePositionAndAddLiquidity ''P2'' 110 120 500 30000400),
       Did (SubmitTransaction 3),
       Sent (NewPositionCreated ''P2'' ''sig'' 110 120 500 30000400),
       Sent RebalancingCompleted], Inr ())"
  by (simp add: prod_eq_iff run_defs calmEnv_def withdrawFailsEnv_def)

lemma depositFails_run:
  "rebalanceTry depositFailsEnv scenarioPosition =
     ([Sent StartingRebalance,
       Did (RemoveLiquidity ''P1'' (Some 100) (Some 110)),
       Did (SubmitTransaction 1), Sent (RemovedLiquidity ''P1'' ''sig''),
       Did (SubmitTransaction 2), Sent (RemovedLiquidity ''P1'' ''sig''),
       Did (GetRoutes 500 False), Sent (ExecutingSwap ''route''),
       Did (ExecuteRoute ''route''), Sent (SwapCompleted ''route''),
       Did (Wait 50000),
       Did (InitializePositionAndAddLiquidity ''P2'' 110 120 500 30000400),
       Did (SubmitTransaction 3), Sent (FailedCreatePosition ''expired'')],
      Inl (Error ''expired''))"
  by (simp add: prod_eq_iff run_defs calmEnv_def depositFailsEnv_def)

lemma removalThrows_run:
  "rebalanceTry removalThrowsEnv scenarioPosition =
     ([Sent StartingRebalance, Did (RemoveLiquidity ''P1'' (Some 100) (Some 110))],
      Inl (Error ''rpc''))"
  by (simp add: prod_eq_iff run_defs calmEnv_def removalThrowsEnv_def)

subsection \<open>The lock\<close>

text \<open>
  Claim C3. A call that finds the flag down leaves it down when it is over, whatever
  the collaborators answer: on a normal return and on an error thrown by any stage.
\<close>

theorem lock_released_on_every_exit:
  assumes "\<not> isRebalancing s"
  shows "isRebalancing (fst (rebalancePosition env position s)) = False"
  using assms by (simp add: rebalancePosition_fst)

theorem lock_released_on_every_exit_witness:
  "\<not> isRebalancing initialState \<and>
   snd (rebalancePosition calmEnv scenarioPosition initialState) = Inr () \<and>
   isRebalancing (fst (rebalancePosition calmEnv scenarioPosition initialState)) = False \<and>
   snd (rebalancePosition removalThrowsEnv scenarioPosition initialState) = Inl (Error ''rpc'') \<and>
   isRebalancing (fst (rebalancePosition removalThrowsEnv scenarioPosition initialState)) = False \<and>
   snd (rebalancePosition swapFailsEnv scenarioPosition initialState) = Inl (Error ''slippage'') \<and>
   isRebalancing (fst (rebalancePosition swapFailsEnv scenarioPosition initialState)) = False \<and>
   snd (rebalancePosition depositFailsEnv scenarioPosition initialState) = Inl (Error ''expired'') \<and>
   isRebalancing (fst (rebalancePosition depositFailsEnv scenarioPosition initialState)) = False"
proof -
  have free: "\<not> isRebalancing initialState"
    by (simp add: initialState_def)
  from lock_released_on_every_exit [OF free, of calmEnv scenarioPosition]
    lock_released_on_every_exit [OF free, of removalThrowsEnv scenarioPosition]
    lock_released_on_every_exit [OF free, of swapFailsEnv scenarioPosition]
    lock_released_on_every_exit [OF free, of depositFailsEnv scenarioPosition] free
  show ?thesis
    by (simp add: rebalancePosition_snd calm_run removalThrows_run swapFails_run depositFails_run)
qed

text \<open>
  Claim C4. A call that finds the flag up sends the one message that it skips, asks
  nothing of the pool, the router or the chain, changes nothing else and returns
  normally. Hence a second trigger that arrives while a first one is in flight, after
  any number \<open>n\<close> of the first one's events, adds that one message to what the first
  trigger alone does, and nothing else.
\<close>

theorem skip_while_rebalancing:
  "(isRebalancing s \<longrightarrow>
      rebalancePosition env position s =
        (s\<lparr>events := events s @ [Sent AlreadyInProgress]\<rparr>, Inr ()) \<and>
      filter isPipelineOp (events (fst (rebalancePosition env position s))) =
        filter isPipelineOp (events s)) \<and>
   (\<not> isRebalancing s \<longrightarrow>
      events (fst (rebalancePosition env position s)) =
        events s @ fst (rebalanceTryCatch env position) \<and>
      secondTriggerInFlight n env env2 position s =
        (fst (rebalancePosition env position s))
          \<lparr>events := events s @ take n (fst (rebalanceTryCatch env position)) @
             [Sent AlreadyInProgress] @ drop n (fst (rebalanceTryCatch env position))\<rparr>)"
  by (simp add: rebalancePosition_def secondTriggerInFlight_def emit_def Let_def case_prod_beta)

theorem skip_while_rebalancing_witness:
  "isRebalancing heldState \<and>
   rebalancePosition calmEnv scenarioPosition heldState =
     (heldState\<lparr>events := [Sent AlreadyInProgress]\<rparr>, Inr ()) \<and>
   \<not> isRebalancing initialState \<and>
   events (secondTriggerInFlight 3 calmEnv swapFailsEnv scenarioPosition initialState) =
     [Sent StartingRebalance,
      Did (RemoveLiquidity ''P1'' (Some 100) (Some 110)),
      Did (SubmitTransaction 1),
      Sent AlreadyInProgress,
      Sent (RemovedLiquidity ''P1'' ''sig''),
      Did (SubmitTransaction 2), Sent (RemovedLiquidity ''P1'' ''sig''),
      Did (GetRoutes 500 False), Sent (ExecutingSwap ''route''),
      Did (ExecuteRoute ''route''), Sent (SwapCompleted ''route''),
      Did (Wait 50000),
      Did (InitializePositionAndAddLiquidity ''P2'' 110 120 500 30000400),
      Did (SubmitTransaction 3),
      Sent (NewPositionCreated ''P2'' ''sig'' 110 120 500 30000400),
      Sent RebalancingCompleted]"
  using skip_while_rebalancing [of heldState calmEnv scenarioPosition 0 calmEnv]
    skip_while_rebalancing [of initialState calmEnv scenarioPosition 3 swapFailsEnv]
  by (simp add: heldState_def initialState_def rebalanceTryCatch_fst calm_run)

subsection \<open>The deposit\<close>

lemma rebalanceTry_deposits:
  assumes "snd (rebalanceTry env position) = Inr ()"
  shows "\<exists>fx fy a. balances_final env = Inr (fx, fy) \<and> activeBin_binId env = Inr a \<and>
           deposits (fst (rebalanceTry env position)) =
             [(a - 5, a + 5, fx, if fy > 70000000 then fy - 70000000 else 0)]"
proof -
  from assms have ok: "snd (depositStage env) = Inr ()"
    and evs: "deposits (fst (rebalanceTry env position)) = deposits (fst (depositStage env))"
    by (auto simp: rebalanceTry_def io_simps removePositionLiquidity_quiet swapStage_quiet
        split: sum.splits)
  from ok obtain fx fy where b: "balances_final env = Inr (fx, fy)"
    by (cases "balances_final env") (auto simp: depositStage_def io_simps)
  from ok b obtain a where a: "activeBin_binId env = Inr a"
    by (cases "activeBin_binId env")
       (auto simp: depositStage_def createNewPosition_def Let_def io_simps)
  from ok a b have "deposits (fst (depositStage env)) =
      [(a - 5, a + 5, fx, if fy > 70000000 then fy - 70000000 else 0)]"
    by (auto simp: depositStage_def createNewPosition_def Let_def io_simps
        totalIntervalRange_def reservedSol_def split: sum.splits)
  with evs a b show ?thesis by simp
qed

text \<open>
  Claim C9. A rebalance that took the lock and returned normally has made one deposit:
  into the eleven bins around the active bin read by \<^verbatim>\<open>createNewPosition\<close> itself,
  five on each side, with the whole X balance read after the wait, and with the native
  balance read after the wait less the reserve of \<open>0.07 \<times> 10\<^sup>9\<close> base units when it is
  larger than the reserve, and 0 otherwise.
\<close>

theorem deposit_range_and_amounts:
  assumes "\<not> isRebalancing s"
    and "snd (rebalancePosition env position s) = Inr ()"
  shows "\<exists>fx fy a. balances_final env = Inr (fx, fy) \<and> activeBin_binId env = Inr a \<and>
           deposits (events (fst (rebalancePosition env position s))) =
             deposits (events s) @
               [(a - 5, a + 5, fx, if fy > 70000000 then fy - 70000000 else 0)]"
proof -
  from assms have ok: "snd (rebalanceTry env position) = Inr ()"
    by (simp add: rebalancePosition_snd)
  from assms(1) ok have "deposits (events (fst (rebalancePosition env position s))) =
      deposits (events s) @ deposits (fst (rebalanceTry env position))"
    by (simp add: rebalancePosition_fst rebalanceTryCatch_fst emit_def)
  with rebalanceTry_deposits [OF ok] show ?thesis by auto
qed

theorem deposit_range_and_amounts_witness:
  "\<not> isRebalancing initialState \<and>
   snd (rebalancePosition calmEnv scenarioPosition initialState) = Inr () \<and>
   deposits (events (fst (rebalancePosition calmEnv scenarioPosition initialState))) =
     [(110, 120, 500, 30000400)]"
proof -
  have free: "\<not> isRebalancing initialState"
    by (simp add: initialState_def)
  have ok: "snd (rebalancePosition calmEnv scenarioPosition initialState) = Inr ()"
    using free by (simp add: rebalancePosition_snd calm_run)
  from deposit_range_and_amounts [OF free ok] free ok show ?thesis
    by (auto simp: calmEnv_def initialState_def)
qed

subsection \<open>Sizing the swap\<close>

lemma planSwap_skip:
  assumes "0 \<le> x" and "0 \<le> y"
  shows "(\<not> performSwap (planSwap x y p)) =
           ((if swapYToX (planSwap x y p) then bn_div (y * p) 1000000 else x)
              \<le> bn_div (x + bn_div (y * p) 1000000) 100 \<or>
            swapAmount (planSwap x y p) = 0)"
proof -
  from assms have "0 \<le> bn_div x 2" "0 \<le> bn_div y 2"
    by (simp_all add: bn_div_nonneg)
  then show ?thesis
    by (auto simp: planSwap_def Let_def)
qed

lemma rebalanceTry_swaps:
  assumes "removeLiquidity_result env = Inr r"
    and "balances_first env = Inr (x, y)" and "activeBin_price env = Inr (Some p)"
  shows "swapsRequested (fst (rebalanceTry env position)) =
           (if performSwap (planSwap x y p)
            then [(swapAmount (planSwap x y p), swapYToX (planSwap x y p))] else [])"
  using assms swapStage_swaps [OF assms(2,3)]
  by (simp add: rebalanceTry_def io_simps removePositionLiquidity_quiet
      removePositionLiquidity_snd depositStage_quiet split: sum.splits)

text \<open>
  Claim C5. For balances that are not negative, the swap is left out exactly when the
  value of the side to sell is at most a hundredth of the total value (big-number
  division), or the amount to sell is zero; otherwise the pipeline asks for routes once,
  for the computed amount and direction.
\<close>

theorem swap_skipped_iff:
  assumes "0 \<le> x" and "0 \<le> y"
    and "removeLiquidity_result env = Inr r"
    and "balances_first env = Inr (x, y)" and "activeBin_price env = Inr (Some p)"
  shows "(\<not> performSwap (planSwap x y p)) =
           ((if swapYToX (planSwap x y p) then bn_div (y * p) 1000000 else x)
              \<le> bn_div (x + bn_div (y * p) 1000000) 100 \<or>
            swapAmount (planSwap x y p) = 0) \<and>
         swapsRequested (fst (rebalanceTry env position)) =
           (if performSwap (planSwap x y p)
            then [(swapAmount (planSwap x y p), swapYToX (planSwap x y p))] else [])"
  using planSwap_skip [OF assms(1,2)] rebalanceTry_swaps [OF assms(3,4,5)] by simp

theorem swap_skipped_iff_witness:
  "(0::int) \<le> 1000 \<and> (0::int) \<le> 400 \<and>
   removeLiquidity_result calmEnv = Inr (TxArray [1, 2]) \<and>
   balances_first calmEnv = Inr (1000, 400) \<and>
   activeBin_price calmEnv = Inr (Some 1000000) \<and>
   performSwap (planSwap 1000 400 1000000) \<and>
   swapsRequested (fst (rebalanceTry calmEnv scenarioPosition)) = [(500, False)] \<and>
   balances_first noSwapEnv = Inr (1, 1) \<and>
   \<not> performSwap (planSwap 1 1 1000000) \<and>
   swapAmount (planSwap 1 1 1000000) = 0 \<and>
   swapsRequested (fst (rebalanceTry noSwapEnv scenarioPosition)) = []"
proof -
  have a: "removeLiquidity_result calmEnv = Inr (TxArray [1, 2])"
    and b: "balances_first calmEnv = Inr (1000, 400)"
    and c: "activeBin_price calmEnv = Inr (Some 1000000)"
    by (simp_all add: calmEnv_def)
  have a': "removeLiquidity_result noSwapEnv = Inr (TxArray [1, 2])"
    and b': "balances_first noSwapEnv = Inr (1, 1)"
    and c': "activeBin_price noSwapEnv = Inr (Some 1000000)"
    by (simp_all add: calmEnv_def noSwapEnv_def)
  have p: "planSwap 1000 400 1000000 = \<lparr>swapAmount = 500, swapYToX = False, performSwap = True\<rparr>"
    and p': "planSwap 1 1 1000000 = \<lparr>swapAmount = 0, swapYToX = True, performSwap = False\<rparr>"
    by (simp_all add: planSwap_def bn_div_def Let_def)
  from swap_skipped_iff [OF _ _ a b c, of scenarioPosition]
    swap_skipped_iff [OF _ _ a' b' c', of scenarioPosition] a b c b'
  show ?thesis
    by (simp add: p p')
qed

text \<open>
  Claim C6. When the value of X exceeds the value of Y, half of the X balance is sold;
  otherwise, also when the values are equal, half of the Y balance. The value of Y is its
  balance times the scaled price, divided by \<open>10\<^sup>6\<close>. The big-number divisions are the
  integer divisions of numbers that are not negative.
\<close>

theorem sells_half_of_larger_side:
  "(bn_div (y * p) 1000000 < x \<longrightarrow>
      \<not> swapYToX (planSwap x y p) \<and> swapAmount (planSwap x y p) = bn_div x 2) \<and>
   (x \<le> bn_div (y * p) 1000000 \<longrightarrow>
      swapYToX (planSwap x y p) \<and> swapAmount (planSwap x y p) = bn_div y 2) \<and>
   (0 \<le> x \<longrightarrow> bn_div x 2 = x div 2) \<and>
   (0 \<le> y \<longrightarrow> bn_div y 2 = y div 2) \<and>
   (0 \<le> y \<and> 0 \<le> p \<longrightarrow> bn_div (y * p) 1000000 = (y * p) div 1000000)"
  by (simp add: planSwap_def Let_def bn_div_nonneg)

theorem sells_half_of_larger_side_witness:
  "bn_div (400 * 1000000) 1000000 < 1000 \<and>
   \<not> swapYToX (planSwap 1000 400 1000000) \<and>
   swapAmount (planSwap 1000 400 1000000) = 500 \<and>
   10 \<le> bn_div (10 * 1000000) 1000000 \<and>
   swapYToX (planSwap 10 10 1000000) \<and>
   swapAmount (planSwap 10 10 1000000) = 5"
  using sells_half_of_larger_side [of 400 1000000 1000]
    sells_half_of_larger_side [of 10 1000000 10]
  by (simp add: bn_div_def)

subsection \<open>Failures of transactions\<close>

lemma submitAll_stops:
  assumes "\<forall>u\<in>set pre. \<exists>h. sendAndConfirm_result env u = Inr h"
    and "sendAndConfirm_result env t = Inl e"
  shows "submitted (fst (submitAll env key (pre @ t # post))) = pre @ [t] \<and>
         snd (submitAll env key (pre @ t # post)) = Inl e \<and>
         filter isRemovalFailure (fst (submitAll env key (pre @ t # post))) = []"
  using assms by (induction pre) (auto simp: io_simps)

lemma removePositionLiquidity_stops:
  assumes "removeLiquidity_result env = Inr r"
    and "transactionsOf r = pre @ t # post"
    and "\<forall>u\<in>set pre. \<exists>h. sendAndConfirm_result env u = Inr h"
    and "sendAndConfirm_result env t = Inl e"
  shows "submitted (fst (removePositionLiquidity env position)) = pre @ [t]"
    and "filter isRemovalFailure (fst (removePositionLiquidity env position)) =
           [Sent (FailedRemoveLiquidity (publicKey position) e)]"
  using assms submitAll_stops [OF assms(3,4), of "publicKey position" post]
  by (simp_all add: removePositionLiquidity_def Let_def io_simps)

lemma rebalanceTry_after_withdraw:
  assumes "removeLiquidity_result env = Inr r"
  shows "snd (rebalanceTry env position) =
           (case snd (swapStage env) of Inl e \<Rightarrow> Inl e | Inr _ \<Rightarrow> snd (depositStage env))"
  using assms
  by (simp add: rebalanceTry_def io_simps removePositionLiquidity_snd split: sum.splits)

lemma swapStage_throws:
  assumes "balances_first env = Inr (x, y)" and "activeBin_price env = Inr (Some p)"
    and "performSwap (planSwap x y p)"
    and "getRoutes_result env = Inr (rt # rts)" and "executeRoute_result env = Inl e"
  shows "snd (swapStage env) = Inl e"
  using assms by (simp add: swapStage_def swap_def Let_def io_simps)

lemma depositStage_throws:
  assumes "balances_final env = Inr (fx, fy)" and "activeBin_binId env = Inr a"
    and "initializePosition_result env = Inr c" and "sendAndConfirm_result env c = Inl e"
  shows "snd (depositStage env) = Inl e"
  using assms by (simp add: depositStage_def createNewPosition_def Let_def io_simps)

lemma rebalanceTry_no_deposit:
  assumes "snd (swapStage env) = Inl e"
  shows "deposits (fst (rebalanceTry env position)) = []"
  using assms
  by (simp add: rebalanceTry_def io_simps removePositionLiquidity_quiet swapStage_quiet
      split: sum.splits)

text \<open>
  Claim C7 as stated fails: in the withdrawal, the transaction after the first one that
  fails is not submitted, although its submission would succeed.
\<close>

theorem withdraw_failure_counterexample:
  "removeLiquidity_result withdrawFailsEnv = Inr (TxArray [1, 2, 4]) \<and>
   sendAndConfirm_result withdrawFailsEnv 2 = Inl (Error ''timeout'') \<and>
   sendAndConfirm_result withdrawFailsEnv 4 = Inr ''sig'' \<and>
   submitted (fst (removePositionLiquidity withdrawFailsEnv scenarioPosition)) = [1, 2]"
  by (simp add: withdrawFailsEnv_def calmEnv_def removePositionLiquidity_def
      transactionsOf_def Let_def io_simps)

text \<open>
  Claim C7, amended. In the withdrawal, the first submission that fails is reported by one
  message and ends the submissions: the transactions after it are not submitted. That
  failure is not thrown further, and the outcome of the pipeline is the outcome of its
  later stages. A failure of the execution of the swap, or of the submission of the
  deposit, is the outcome of the whole call; after a failed swap nothing is deposited.
\<close>

theorem transaction_failures:
  "(removeLiquidity_result env = Inr r \<and> transactionsOf r = pre @ t # post \<and>
    (\<forall>u\<in>set pre. \<exists>h. sendAndConfirm_result env u = Inr h) \<and>
    sendAndConfirm_result env t = Inl e \<longrightarrow>
      submitted (fst (removePositionLiquidity env position)) = pre @ [t] \<and>
      filter isRemovalFailure (fst (removePositionLiquidity env position)) =
        [Sent (FailedRemoveLiquidity (publicKey position) e)] \<and>
      snd (removePositionLiquidity env position) = Inr () \<and>
      snd (rebalanceTry env position) =
        (case snd (swapStage env) of Inl e' \<Rightarrow> Inl e' | Inr _ \<Rightarrow> snd (depositStage env))) \<and>
   (removeLiquidity_result env = Inr r \<and>
    balances_first env = Inr (x, y) \<and> activeBin_price env = Inr (Some p) \<and>
    performSwap (planSwap x y p) \<and>
    getRoutes_result env = Inr (rt # rts) \<and> executeRoute_result env = Inl e \<and>
    \<not> isRebalancing s \<longrightarrow>
      snd (rebalancePosition env position s) = Inl e \<and>
      deposits (fst (rebalanceTry env position)) = []) \<and>
   (removeLiquidity_result env = Inr r \<and> snd (swapStage env) = Inr () \<and>
    balances_final env = Inr (fx, fy) \<and> activeBin_binId env = Inr a \<and>
    initializePosition_result env = Inr c \<and> sendAndConfirm_result env c = Inl e \<and>
    \<not> isRebalancing s \<longrightarrow>
      snd (rebalancePosition env position s) = Inl e)"
proof (intro conjI impI)
  assume h: "removeLiquidity_result env = Inr r \<and> transactionsOf r = pre @ t # post \<and>
    (\<forall>u\<in>set pre. \<exists>h. sendAndConfirm_result env u = Inr h) \<and>
    sendAndConfirm_result env t = Inl e"
  then show "submitted (fst (removePositionLiquidity env position)) = pre @ [t]"
    and "filter isRemovalFailure (fst (removePositionLiquidity env position)) =
        [Sent (FailedRemoveLiquidity (publicKey position) e)]"
    using removePositionLiquidity_stops [of env r pre t post e position] by simp_all
  from h show "snd (removePositionLiquidity env position) = Inr ()"
    by (simp add: removePositionLiquidity_snd)
  from h show "snd (rebalanceTry env position) =
        (case snd (swapStage env) of Inl e' \<Rightarrow> Inl e' | Inr _ \<Rightarrow> snd (depositStage env))"
    using rebalanceTry_after_withdraw [of env r position] by simp
next
  assume h: "removeLiquidity_result env = Inr r \<and>
    balances_first env = Inr (x, y) \<and> activeBin_price env = Inr (Some p) \<and>
    performSwap (planSwap x y p) \<and>
    getRoutes_result env = Inr (rt # rts) \<and> executeRoute_result env = Inl e \<and>
    \<not> isRebalancing s"
  then have sw: "snd (swapStage env) = Inl e"
    using swapStage_throws [of env x y p rt rts e] by simp
  with h show "snd (rebalancePosition env position s) = Inl e"
    using rebalanceTry_after_withdraw [of env r position]
    by (simp add: rebalancePosition_snd)
  from sw show "deposits (fst (rebalanceTry env position)) = []"
    by (rule rebalanceTry_no_deposit)
next
  assume h: "removeLiquidity_result env = Inr r \<and> snd (swapStage env) = Inr () \<and>
    balances_final env = Inr (fx, fy) \<and> activeBin_binId env = Inr a \<and>
    initializePosition_result env = Inr c \<and> sendAndConfirm_result env c = Inl e \<and>
    \<not> isRebalancing s"
  then have "snd (depositStage env) = Inl e"
    using depositStage_throws [of env fx fy a c e] by simp
  with h show "snd (rebalancePosition env position s) = Inl e"
    using rebalanceTry_after_withdraw [of env r position]
    by (simp add: rebalancePosition_snd)
qed

theorem transaction_failures_witness:
  "removeLiquidity_result withdrawFailsEnv = Inr (TxArray [1, 2, 4]) \<and>
   sendAndConfirm_result withdrawFailsEnv 1 = Inr ''sig'' \<and>
   sendAndConfirm_result withdrawFailsEnv 2 = Inl (Error ''timeout'') \<and>
   submitted (fst (removePositionLiquidity withdrawFailsEnv scenarioPosition)) = [1, 2] \<and>
   filter isRemovalFailure (fst (removePositionLiquidity withdrawFailsEnv scenarioPosition)) =
     [Sent (FailedRemoveLiquidity ''P1'' (Error ''timeout''))] \<and>
   snd (removePositionLiquidity withdrawFailsEnv scenarioPosition) = Inr () \<and>
   snd (rebalanceTry withdrawFailsEnv scenarioPosition) = Inr () \<and>
   deposits (fst (rebalanceTry withdrawFailsEnv scenarioPosition)) =
     [(110, 120, 500, 30000400)] \<and>
   performSwap (planSwap 1000 400 1000000) \<and>
   executeRoute_result swapFailsEnv = Inl (Error ''slippage'') \<and>
   snd (rebalancePosition swapFailsEnv scenarioPosition initialState) = Inl (Error ''slippage'') \<and>
   deposits (fst (rebalanceTry swapFailsEnv scenarioPosition)) = [] \<and>
   snd (swapStage depositFailsEnv) = Inr () \<and>
   sendAndConfirm_result depositFailsEnv 3 = Inl (Error ''expired'') \<and>
   snd (rebalancePosition depositFailsEnv scenarioPosition initialState) = Inl (Error ''expired'')"
proof -
  have w: "removeLiquidity_result withdrawFailsEnv = Inr (TxArray [1, 2, 4]) \<and>
      transactionsOf (TxArray [1, 2, 4]) = [1] @ 2 # [4] \<and>
      (\<forall>u\<in>set [1]. \<exists>h. sendAndConfirm_result withdrawFailsEnv u = Inr h) \<and>
      sendAndConfirm_result withdrawFailsEnv 2 = Inl (Error ''timeout'')"
    by (simp add: withdrawFailsEnv_def calmEnv_def transactionsOf_def)
  have sw: "removeLiquidity_result swapFailsEnv = Inr (TxArray [1, 2]) \<and>
      balances_first swapFailsEnv = Inr (1000, 400) \<and>
      activeBin_price swapFailsEnv = Inr (Some 1000000) \<and>
      performSwap (planSwap 1000 400 1000000) \<and>
      getRoutes_result swapFailsEnv = Inr (''route'' # []) \<and>
      executeRoute_result swapFailsEnv = Inl (Error ''slippage'') \<and>
      \<not> isRebalancing initialState"
    by (simp add: swapFailsEnv_def calmEnv_def planSwap_def bn_div_def Let_def initialState_def)
  have d: "removeLiquidity_result depositFailsEnv = Inr (TxArray [1, 2]) \<and>
      snd (swapStage depositFailsEnv) = Inr () \<and>
      balances_final depositFailsEnv = Inr (500, 100000400) \<and>
      activeBin_binId depositFailsEnv = Inr 115 \<and>
      initializePosition_result depositFailsEnv = Inr 3 \<and>
      sendAndConfirm_result depositFailsEnv 3 = Inl (Error ''expired'') \<and>
      \<not> isRebalancing initialState"
    by (simp add: depositFailsEnv_def calmEnv_def swapStage_def swap_def planSwap_def
        bn_div_def Let_def io_simps initialState_def)
  have k: "publicKey scenarioPosition = ''P1''"
    by (simp add: scenarioPosition_def)
  have later: "snd (swapStage withdrawFailsEnv) = Inr ()"
      "snd (depositStage withdrawFailsEnv) = Inr ()"
    by (simp_all add: withdrawFailsEnv_def calmEnv_def swapStage_def swap_def planSwap_def
        depositStage_def createNewPosition_def bn_div_def Let_def io_simps)
  from transaction_failures
      [where env = withdrawFailsEnv and r = "TxArray [1, 2, 4]" and pre = "[1]" and t = 2
         and post = "[4]" and e = "Error ''timeout''" and position = scenarioPosition]
    w k later
  have one: "submitted (fst (removePositionLiquidity withdrawFailsEnv scenarioPosition)) = [1, 2] \<and>
      filter isRemovalFailure (fst (removePositionLiquidity withdrawFailsEnv scenarioPosition)) =
        [Sent (FailedRemoveLiquidity ''P1'' (Error ''timeout''))] \<and>
      snd (removePositionLiquidity withdrawFailsEnv scenarioPosition) = Inr () \<and>
      snd (rebalanceTry withdrawFailsEnv scenarioPosition) = Inr ()"
    by simp
  from transaction_failures
      [where env = swapFailsEnv and r = "TxArray [1, 2]" and x = 1000 and y = 400
         and p = 1000000 and rt = "''route''" and rts = "[]" and e = "Error ''slippage''"
         and s = initialState and position = scenarioPosition]
    sw
  have two: "snd (rebalancePosition swapFailsEnv scenarioPosition initialState) = Inl (Error ''slippage'') \<and>
      deposits (fst (rebalanceTry swapFailsEnv scenarioPosition)) = []"
    by blast
  from transaction_failures
      [where env = depositFailsEnv and r = "TxArray [1, 2]" and fx = 500 and fy = 100000400
         and a = 115 and c = 3 and e = "Error ''expired''"
         and s = initialState and position = scenarioPosition]
    d
  have three: "snd (rebalancePosition depositFailsEnv scenarioPosition initialState) = Inl (Error ''expired'')"
    by blast
  have s1: "sendAndConfirm_result withdrawFailsEnv 1 = Inr ''sig''"
    by (simp add: withdrawFailsEnv_def calmEnv_def)
  have went_on: "deposits (fst (rebalanceTry withdrawFailsEnv scenarioPosition)) =
      [(110, 120, 500, 30000400)]"
    by (simp add: withdrawFails_run)
  from w sw d one two three s1 went_on show ?thesis
    by simp
qed

subsection \<open>A failed query\<close>

text \<open>
  Claim C8. When the query for the positions or for the active bin throws, the cycle
  leaves the statuses and the flag as they were and sends one message, which for an
  \<^verbatim>\<open>Error\<close> instance carries its text. Both versions of \<^verbatim>\<open>checkPositions\<close> do so.
\<close>

theorem query_failure_aborts_cycle:
  "(positions_result cenv = Inl e \<or>
      (\<exists>ps. positions_result cenv = Inr ps \<and> activeBin_result cenv = Inl e) \<longrightarrow>
    checkPositions cenv s =
      s\<lparr>events := events s @ [Sent (ErrorCheckingPositions (instanceMessage e))]\<rparr>) \<and>
   (userPositions_result menv = Inl e \<or>
      (\<exists>ps. userPositions_result menv = Inr ps \<and> getActiveBin_result menv = Inl e) \<longrightarrow>
    monitorCheckPositions menv t =
      t\<lparr>events := events t @ [Sent (ErrorCheckingPositions (instanceMessage e))]\<rparr>) \<and>
   instanceMessage (Error description) = description"
  by (auto simp: checkPositions_def monitorCheckPositions_def catchCheck_def emit_def)

theorem query_failure_aborts_cycle_witness:
  "checkPositions \<lparr>positions_result = Inl (Error ''rpc down''), activeBin_result = Inr 115\<rparr>
       trackedState =
     trackedState\<lparr>events := [Sent (ErrorCheckingPositions ''rpc down'')]\<rparr> \<and>
   checkPositions \<lparr>positions_result = Inr [(scenarioPosition, calmEnv)],
       activeBin_result = Inl (Error ''rpc down'')\<rparr> trackedState =
     trackedState\<lparr>events := [Sent (ErrorCheckingPositions ''rpc down'')]\<rparr> \<and>
   monitorCheckPositions
       \<lparr>userPositions_result = Inr [scenarioPosition],
        getActiveBin_result = Inl (Error ''rpc down'')\<rparr> trackedMonitor =
     trackedMonitor\<lparr>events := [Sent (ErrorCheckingPositions ''rpc down'')]\<rparr>"
  using query_failure_aborts_cycle
      [of "\<lparr>positions_result = Inl (Error ''rpc down''), activeBin_result = Inr 115\<rparr>"
          "Error ''rpc down''" trackedState
          "\<lparr>userPositions_result = Inr [scenarioPosition],
            getActiveBin_result = Inl (Error ''rpc down'')\<rparr>" trackedMonitor]
    query_failure_aborts_cycle
      [of "\<lparr>positions_result = Inr [(scenarioPosition, calmEnv)],
            activeBin_result = Inl (Error ''rpc down'')\<rparr>"
          "Error ''rpc down''" trackedState
          "\<lparr>userPositions_result = Inr [scenarioPosition],
            getActiveBin_result = Inl (Error ''rpc down'')\<rparr>" trackedMonitor]
  by (simp add: trackedState_def trackedMonitor_def)

subsection \<open>One poll of one position\<close>

lemma emit_keeps [simp]:
  "positionStatuses (emit evs s) = positionStatuses s"
  "events (emit evs s) = events s @ evs"
  by (simp_all add: emit_def)

lemma emit_keeps_flag [simp]: "isRebalancing (emit evs s) = isRebalancing s"
  by (simp add: emit_def)

lemma setStatus_keeps [simp]:
  "positionStatuses (setStatus k st s) = (positionStatuses s)(k \<mapsto> st)"
  "events (setStatus k st s) = events s"
  by (simp_all add: setStatus_def)

lemma setStatus_keeps_flag [simp]: "isRebalancing (setStatus k st s) = isRebalancing s"
  by (simp add: setStatus_def)

lemma catchCheck_keeps [simp]:
  "positionStatuses (catchCheck e s) = positionStatuses s"
  "events (catchCheck e s) = events s @ [Sent (ErrorCheckingPositions (instanceMessage e))]"
  by (simp_all add: catchCheck_def)

lemma catchCheck_keeps_flag [simp]: "isRebalancing (catchCheck e s) = isRebalancing s"
  by (simp add: catchCheck_def)

lemma rebalancePosition_alerts:
  "filter isAlert (events (fst (rebalancePosition env position s))) = filter isAlert (events s)"
  by (simp add: rebalancePosition_fst rebalanceTryCatch_fst rebalanceTry_quiet emit_def
      split: sum.splits)

lemma poll_unfold:
  "poll p a env s =
     (let st = getStatus s (publicKey p);
          s' = fst (rebalancePosition env p
                 (emit [Sent (generateOutOfRangeMessage p a (lowerBinId p) (upperBinId p))] s))
      in
      if \<not> inRange p a \<and> \<not> lastNotified st then
        (case snd (rebalancePosition env p s) of
           Inl e \<Rightarrow> catchCheck e s'
         | Inr _ \<Rightarrow> setStatus (publicKey p) (st\<lparr>lastNotified := True, isInRange := False\<rparr>) s')
      else if inRange p a \<and> lastNotified st then
        setStatus (publicKey p) (st\<lparr>lastNotified := False, isInRange := True\<rparr>)
          (emit [Sent (BackInRange (publicKey p) a)] s)
      else setStatus (publicKey p) (st\<lparr>isInRange := inRange p a\<rparr>) s)"
proof -
  have r: "snd (rebalancePosition env p (emit evs s)) = snd (rebalancePosition env p s)" for evs
    by (simp add: rebalancePosition_snd)
  show ?thesis
    by (cases "rebalancePosition env p
          (emit [Sent (generateOutOfRangeMessage p a (lowerBinId p) (upperBinId p))] s)")
       (use r [of "[Sent (generateOutOfRangeMessage p a (lowerBinId p) (upperBinId p))]"] in
        \<open>auto simp: poll_def checkPositions_def Let_def split: sum.splits\<close>)
qed

lemma getStatus_setStatus [simp]: "getStatus (setStatus k st s) k = st"
  by (simp add: getStatus_def)

lemma getStatus_catchCheck [simp]: "getStatus (catchCheck e s) k = getStatus s k"
  by (simp add: getStatus_def)

lemma poll_keeps_flag [simp]: "isRebalancing (poll p a env s) = isRebalancing s"
  by (simp add: poll_unfold Let_def rebalancePosition_keeps split: sum.splits)

lemma poll_alert:
  assumes "\<not> inRange p a" and "\<not> lastNotified (getStatus s (publicKey p))"
  shows "filter isAlert (events (poll p a env s)) =
           filter isAlert (events s) @
             [Sent (generateOutOfRangeMessage p a (lowerBinId p) (upperBinId p))]"
    and "snd (rebalanceTry env p) = Inr () \<Longrightarrow>
           getStatus (poll p a env s) (publicKey p) = \<lparr>isInRange = False, lastNotified = True\<rparr>"
    and "snd (rebalanceTry env p) = Inl e \<Longrightarrow> \<not> isRebalancing s \<Longrightarrow>
           positionStatuses (poll p a env s) = positionStatuses s"
  using assms
  by (simp_all add: poll_unfold Let_def rebalancePosition_alerts rebalancePosition_snd
      rebalancePosition_keeps generateOutOfRangeMessage_def split: sum.splits)

lemma poll_quiet_out:
  assumes "\<not> inRange p a" and "lastNotified (getStatus s (publicKey p))"
  shows "events (poll p a env s) = events s"
    and "getStatus (poll p a env s) (publicKey p) = \<lparr>isInRange = False, lastNotified = True\<rparr>"
  using assms by (simp_all add: poll_unfold Let_def)

lemma poll_back:
  assumes "inRange p a" and "lastNotified (getStatus s (publicKey p))"
  shows "events (poll p a env s) = events s @ [Sent (BackInRange (publicKey p) a)]"
    and "getStatus (poll p a env s) (publicKey p) = \<lparr>isInRange = True, lastNotified = False\<rparr>"
  using assms by (simp_all add: poll_unfold Let_def)

lemma poll_quiet_in:
  assumes "inRange p a" and "\<not> lastNotified (getStatus s (publicKey p))"
  shows "events (poll p a env s) = events s"
    and "getStatus (poll p a env s) (publicKey p) = \<lparr>isInRange = True, lastNotified = False\<rparr>"
  using assms by (simp_all add: poll_unfold Let_def)

lemma outAlerts_filter: "outAlerts k evs = outAlerts k (filter isAlert evs)"
  unfolding outAlerts_def filter_filter
  by (rule arg_cong [where f = length], rule filter_cong) (auto dest: isOutAlert_isAlert)

lemma backAlerts_filter: "backAlerts k evs = backAlerts k (filter isAlert evs)"
  unfolding backAlerts_def filter_filter
  by (rule arg_cong [where f = length], rule filter_cong) (auto dest: isBackAlert_isAlert)

lemma alert_counts [simp]:
  "outAlerts k [Sent (generateOutOfRangeMessage p a lo hi)] = (if k = publicKey p then 1 else 0)"
  "backAlerts k [Sent (generateOutOfRangeMessage p a lo hi)] = 0"
  "outAlerts k [Sent (BackInRange k' a)] = 0"
  "backAlerts k [Sent (BackInRange k' a)] = (if k = k' then 1 else 0)"
  by (simp_all add: outAlerts_def backAlerts_def generateOutOfRangeMessage_def)

lemma poll_out_counts:
  assumes "\<not> inRange p a"
  shows "outAlerts (publicKey p) (events (poll p a env s)) =
           outAlerts (publicKey p) (events s) +
             (if lastNotified (getStatus s (publicKey p)) then 0 else 1)"
    and "backAlerts (publicKey p) (events (poll p a env s)) = backAlerts (publicKey p) (events s)"
proof -
  show "outAlerts (publicKey p) (events (poll p a env s)) =
           outAlerts (publicKey p) (events s) +
             (if lastNotified (getStatus s (publicKey p)) then 0 else 1)"
  proof (cases "lastNotified (getStatus s (publicKey p))")
    case True
    with assms show ?thesis by (simp add: poll_quiet_out)
  next
    case False
    with assms poll_alert(1) [of p a s env] show ?thesis
      by (subst outAlerts_filter, subst (2) outAlerts_filter) simp
  qed
  show "backAlerts (publicKey p) (events (poll p a env s)) = backAlerts (publicKey p) (events s)"
  proof (cases "lastNotified (getStatus s (publicKey p))")
    case True
    with assms show ?thesis by (simp add: poll_quiet_out)
  next
    case False
    with assms poll_alert(1) [of p a s env] show ?thesis
      by (subst backAlerts_filter, subst (2) backAlerts_filter) simp
  qed
qed

lemma poll_in_counts:
  assumes "inRange p a"
  shows "backAlerts (publicKey p) (events (poll p a env s)) =
           backAlerts (publicKey p) (events s) +
             (if lastNotified (getStatus s (publicKey p)) then 1 else 0)"
    and "outAlerts (publicKey p) (events (poll p a env s)) = outAlerts (publicKey p) (events s)"
  using assms
  by (cases "lastNotified (getStatus s (publicKey p))"; simp add: poll_back poll_quiet_in)+

lemma poll_stored:
  assumes "\<not> inRange p a" and "\<not> lastNotified (getStatus s (publicKey p))"
    and "snd (rebalanceTry env p) = Inr ()"
  shows "positionStatuses (poll p a env s) (publicKey p) =
           Some \<lparr>isInRange = False, lastNotified = True\<rparr>"
  using assms
  by (simp add: poll_unfold Let_def rebalancePosition_snd split: sum.splits)

lemma poll_stored_quiet:
  assumes "\<not> inRange p a" and "lastNotified (getStatus s (publicKey p))"
  shows "positionStatuses (poll p a env s) (publicKey p) =
           Some \<lparr>isInRange = False, lastNotified = True\<rparr>"
  using assms by (simp add: poll_unfold Let_def)

subsection \<open>Streaks\<close>

lemma polls_out_quiet:
  assumes "\<forall>(p, a, env)\<in>set os. publicKey p = k \<and> \<not> inRange p a"
    and "lastNotified (getStatus s k)"
  shows "events (polls os s) = events s"
  using assms
proof (induction os arbitrary: s)
  case Nil
  then show ?case by simp
next
  case (Cons o1 os)
  obtain p a env where o1: "o1 = (p, a, env)"
    by (cases o1)
  with Cons.prems have k: "publicKey p = k" and out: "\<not> inRange p a"
    by auto
  from k out Cons.prems(2) have "lastNotified (getStatus (poll p a env s) k)"
    and "events (poll p a env s) = events s"
    using poll_quiet_out [of p a s env] by auto
  with Cons.IH [of "poll p a env s"] Cons.prems(1) o1 show ?case
    by simp
qed

lemma polls_in_quiet:
  assumes "\<forall>(p, a, env)\<in>set os. publicKey p = k \<and> inRange p a"
    and "\<not> lastNotified (getStatus s k)"
  shows "events (polls os s) = events s"
  using assms
proof (induction os arbitrary: s)
  case Nil
  then show ?case by simp
next
  case (Cons o1 os)
  obtain p a env where o1: "o1 = (p, a, env)"
    by (cases o1)
  with Cons.prems have k: "publicKey p = k" and inr: "inRange p a"
    by auto
  from k inr Cons.prems(2) have "\<not> lastNotified (getStatus (poll p a env s) k)"
    and "events (poll p a env s) = events s"
    using poll_quiet_in [of p a s env] by auto
  with Cons.IH [of "poll p a env s"] Cons.prems(1) o1 show ?case
    by simp
qed

lemma polls_out_once:
  assumes "\<forall>(p, a, env)\<in>set os.
             publicKey p = k \<and> \<not> inRange p a \<and> snd (rebalanceTry env p) = Inr ()"
  shows "outAlerts k (events (polls os s)) \<le> outAlerts k (events s) + 1"
proof (cases os)
  case Nil
  then show ?thesis by simp
next
  case (Cons o1 rest)
  obtain p a env where o1: "o1 = (p, a, env)"
    by (cases o1)
  with assms Cons have k: "publicKey p = k" and out: "\<not> inRange p a"
    and ok: "snd (rebalanceTry env p) = Inr ()"
    and rest: "\<forall>(p, a, env)\<in>set rest. publicKey p = k \<and> \<not> inRange p a"
    by auto
  have "lastNotified (getStatus (poll p a env s) k)"
    using poll_alert(2) [OF out _ ok, of s] poll_quiet_out(2) [OF out, of s env] k
    by (cases "lastNotified (getStatus s k)") auto
  then have "events (polls rest (poll p a env s)) = events (poll p a env s)"
    by (rule polls_out_quiet [OF rest])
  with poll_out_counts(1) [OF out, of env s] k Cons o1 show ?thesis
    by simp
qed

lemma polls_in_once:
  assumes "\<forall>(p, a, env)\<in>set os. publicKey p = k \<and> inRange p a"
  shows "backAlerts k (events (polls os s)) \<le> backAlerts k (events s) + 1"
proof (cases os)
  case Nil
  then show ?thesis by simp
next
  case (Cons o1 rest)
  obtain p a env where o1: "o1 = (p, a, env)"
    by (cases o1)
  with assms Cons have k: "publicKey p = k" and inr: "inRange p a"
    and rest: "\<forall>(p, a, env)\<in>set rest. publicKey p = k \<and> inRange p a"
    by auto
  have "\<not> lastNotified (getStatus (poll p a env s) k)"
    using poll_back(2) [OF inr, of s env] poll_quiet_in(2) [OF inr, of s env] k
    by (cases "lastNotified (getStatus s k)") auto
  then have "events (polls rest (poll p a env s)) = events (poll p a env s)"
    by (rule polls_in_quiet [OF rest])
  with poll_in_counts(1) [OF inr, of env s] k Cons o1 show ?thesis
    by simp
qed

lemma poll_notified_rises:
  assumes "\<not> lastNotified (getStatus s (publicKey p))"
    and "lastNotified (getStatus (poll p a env s) (publicKey p))"
  shows "outAlerts (publicKey p) (events (poll p a env s)) =
           outAlerts (publicKey p) (events s) + 1"
proof (cases "inRange p a")
  case True
  with assms poll_quiet_in(2) [of p a s env] show ?thesis by simp
next
  case False
  with assms(1) poll_out_counts(1) [of p a env s] show ?thesis by simp
qed

lemma poll_notified_falls:
  assumes "lastNotified (getStatus s (publicKey p))"
    and "\<not> lastNotified (getStatus (poll p a env s) (publicKey p))"
  shows "backAlerts (publicKey p) (events (poll p a env s)) =
           backAlerts (publicKey p) (events s) + 1"
proof (cases "inRange p a")
  case True
  with assms(1) poll_in_counts(1) [of p a env s] show ?thesis by simp
next
  case False
  with assms poll_quiet_out(2) [of p a s env] show ?thesis by simp
qed

subsection \<open>The class version\<close>

lemma monitorPoll_unfold:
  "monitorPoll p a t =
     (let st = monitorStatus t (publicKey p) in
      if \<not> inRange p a \<and> \<not> lastNotified st then
        setStatus (publicKey p) (st\<lparr>lastNotified := True, isInRange := False\<rparr>)
          (emit [Sent (generateOutOfRangeMessage p a (lowerBinId p) (upperBinId p))] t)
      else if inRange p a \<and> lastNotified st then
        setStatus (publicKey p) (st\<lparr>lastNotified := False, isInRange := True\<rparr>)
          (emit [Sent (BackInRange (publicKey p) a)] t)
      else setStatus (publicKey p) (st\<lparr>isInRange := inRange p a\<rparr>) t)"
  by (auto simp: monitorPoll_def monitorCheckPositions_def Let_def)

lemma monitorStatus_setStatus [simp]: "monitorStatus (setStatus k st t) k = st"
  by (simp add: monitorStatus_def)

lemma monitorPoll_out:
  assumes "\<not> inRange p a"
  shows "outAlerts (publicKey p) (events (monitorPoll p a t)) =
           outAlerts (publicKey p) (events t) +
             (if lastNotified (monitorStatus t (publicKey p)) then 0 else 1)"
    and "lastNotified (monitorStatus t (publicKey p)) \<Longrightarrow>
           events (monitorPoll p a t) = events t"
    and "lastNotified (monitorStatus (monitorPoll p a t) (publicKey p))"
    and "\<not> isInRange (monitorStatus (monitorPoll p a t) (publicKey p))"
  using assms by (simp_all add: monitorPoll_unfold Let_def)

lemma monitorPoll_in:
  assumes "inRange p a"
  shows "backAlerts (publicKey p) (events (monitorPoll p a t)) =
           backAlerts (publicKey p) (events t) +
             (if lastNotified (monitorStatus t (publicKey p)) then 1 else 0)"
    and "\<not> lastNotified (monitorStatus t (publicKey p)) \<Longrightarrow>
           events (monitorPoll p a t) = events t"
    and "\<not> lastNotified (monitorStatus (monitorPoll p a t) (publicKey p))"
  using assms by (simp_all add: monitorPoll_unfold Let_def)

lemma monitorPolls_out_quiet:
  assumes "\<forall>(p, a)\<in>set os. publicKey p = k \<and> \<not> inRange p a"
    and "lastNotified (monitorStatus t k)"
  shows "events (monitorPolls os t) = events t"
  using assms
proof (induction os arbitrary: t)
  case Nil
  then show ?case by simp
next
  case (Cons o1 os)
  obtain p a where o1: "o1 = (p, a)"
    by (cases o1)
  with Cons.prems have k: "publicKey p = k" and out: "\<not> inRange p a"
    by auto
  from k out Cons.prems(2) have "lastNotified (monitorStatus (monitorPoll p a t) k)"
    and "events (monitorPoll p a t) = events t"
    using monitorPoll_out(2,3) [of p a t] by auto
  with Cons.IH [of "monitorPoll p a t"] Cons.prems(1) o1 show ?case
    by simp
qed

lemma monitorPolls_in_quiet:
  assumes "\<forall>(p, a)\<in>set os. publicKey p = k \<and> inRange p a"
    and "\<not> lastNotified (monitorStatus t k)"
  shows "events (monitorPolls os t) = events t"
  using assms
proof (induction os arbitrary: t)
  case Nil
  then show ?case by simp
next
  case (Cons o1 os)
  obtain p a where o1: "o1 = (p, a)"
    by (cases o1)
  with Cons.prems have k: "publicKey p = k" and inr: "inRange p a"
    by auto
  from k inr Cons.prems(2) have "\<not> lastNotified (monitorStatus (monitorPoll p a t) k)"
    and "events (monitorPoll p a t) = events t"
    using monitorPoll_in(2,3) [of p a t] by auto
  with Cons.IH [of "monitorPoll p a t"] Cons.prems(1) o1 show ?case
    by simp
qed

lemma monitorPolls_out_once:
  assumes "\<forall>(p, a)\<in>set os. publicKey p = k \<and> \<not> inRange p a"
  shows "outAlerts k (events (monitorPolls os t)) \<le> outAlerts k (events t) + 1"
proof (cases os)
  case Nil
  then show ?thesis by simp
next
  case (Cons o1 rest)
  obtain p a where o1: "o1 = (p, a)"
    by (cases o1)
  with assms Cons have k: "publicKey p = k" and out: "\<not> inRange p a"
    and rest: "\<forall>(p, a)\<in>set rest. publicKey p = k \<and> \<not> inRange p a"
    by auto
  have "lastNotified (monitorStatus (monitorPoll p a t) k)"
    using monitorPoll_out(3) [OF out, of t] k by simp
  then have "events (monitorPolls rest (monitorPoll p a t)) = events (monitorPoll p a t)"
    by (rule monitorPolls_out_quiet [OF rest])
  with monitorPoll_out(1) [OF out, of t] k Cons o1 show ?thesis
    by simp
qed

lemma monitorPolls_in_once:
  assumes "\<forall>(p, a)\<in>set os. publicKey p = k \<and> inRange p a"
  shows "backAlerts k (events (monitorPolls os t)) \<le> backAlerts k (events t) + 1"
proof (cases os)
  case Nil
  then show ?thesis by simp
next
  case (Cons o1 rest)
  obtain p a where o1: "o1 = (p, a)"
    by (cases o1)
  with assms Cons have k: "publicKey p = k" and inr: "inRange p a"
    and rest: "\<forall>(p, a)\<in>set rest. publicKey p = k \<and> inRange p a"
    by auto
  have "\<not> lastNotified (monitorStatus (monitorPoll p a t) k)"
    using monitorPoll_in(3) [OF inr, of t] k by simp
  then have "events (monitorPolls rest (monitorPoll p a t)) = events (monitorPoll p a t)"
    by (rule monitorPolls_in_quiet [OF rest])
  with monitorPoll_in(1) [OF inr, of t] k Cons o1 show ?thesis
    by simp
qed

lemma monitorPoll_notified_rises:
  assumes "\<not> lastNotified (monitorStatus t (publicKey p))"
    and "lastNotified (monitorStatus (monitorPoll p a t) (publicKey p))"
  shows "outAlerts (publicKey p) (events (monitorPoll p a t)) =
           outAlerts (publicKey p) (events t) + 1"
proof (cases "inRange p a")
  case True
  with assms monitorPoll_in(3) [of p a t] show ?thesis by simp
next
  case False
  with assms(1) monitorPoll_out(1) [of p a t] show ?thesis by simp
qed

lemma monitorPoll_notified_falls:
  assumes "lastNotified (monitorStatus t (publicKey p))"
    and "\<not> lastNotified (monitorStatus (monitorPoll p a t) (publicKey p))"
  shows "backAlerts (publicKey p) (events (monitorPoll p a t)) =
           backAlerts (publicKey p) (events t) + 1"
proof (cases "inRange p a")
  case True
  with assms(1) monitorPoll_in(1) [of p a t] show ?thesis by simp
next
  case False
  with assms monitorPoll_out(3) [of p a t] show ?thesis by simp
qed

subsection \<open>Alerts at the edges\<close>

lemma scenario_facts:
  "publicKey scenarioPosition = ''P1''"
  "\<not> inRange scenarioPosition 115"
  "inRange scenarioPosition 105"
  by (simp_all add: scenarioPosition_def inRange_def)

lemma initial_untracked:
  "positionStatuses initialState k = None"
  "positionStatuses newMonitor k = None"
  "events initialState = []"
  "events newMonitor = []"
  "\<not> isRebalancing initialState"
  by (simp_all add: initialState_def newMonitor_def)

lemma untracked_not_notified:
  "positionStatuses s k = None \<Longrightarrow> \<not> lastNotified (getStatus s k)"
  "positionStatuses t k = None \<Longrightarrow> \<not> lastNotified (monitorStatus t k)"
  by (simp_all add: getStatus_def monitorStatus_def)

lemma monitorPoll_stored:
  assumes "\<not> inRange p a" and "positionStatuses t (publicKey p) = None"
  shows "positionStatuses (monitorPoll p a t) (publicKey p) =
           Some \<lparr>isInRange = False, lastNotified = True, positionKey = publicKey p\<rparr>"
  using assms by (simp add: monitorPoll_unfold Let_def monitorStatus_def)

lemma monitorPoll_stored_quiet:
  assumes "\<not> inRange p a" and "positionStatuses t (publicKey p) = Some st"
    and "lastNotified st" and "\<not> isInRange st"
  shows "positionStatuses (monitorPoll p a t) (publicKey p) = Some st"
  using assms by (simp add: monitorPoll_unfold Let_def monitorStatus_def)

text \<open>
  Claim C1 as stated fails, in both versions: the position of scenario 2, not tracked
  yet and out of range, gets its alert on the first poll, and none on the second.
\<close>

theorem first_observation_counterexample:
  "positionStatuses initialState ''P1'' = None \<and>
   \<not> inRange scenarioPosition 115 \<and>
   outAlerts ''P1'' (events (poll scenarioPosition 115 calmEnv initialState)) = 1 \<and>
   outAlerts ''P1'' (events (poll scenarioPosition 115 calmEnv
      (poll scenarioPosition 115 calmEnv initialState))) = 1 \<and>
   positionStatuses newMonitor ''P1'' = None \<and>
   outAlerts ''P1'' (events (monitorPoll scenarioPosition 115 newMonitor)) = 1 \<and>
   outAlerts ''P1'' (events (monitorPoll scenarioPosition 115
      (monitorPoll scenarioPosition 115 newMonitor))) = 1"
proof -
  have ok: "snd (rebalanceTry calmEnv scenarioPosition) = Inr ()"
    by (simp add: calm_run)
  have fresh: "\<not> lastNotified (getStatus initialState (publicKey scenarioPosition))"
    by (simp add: untracked_not_notified initial_untracked)
  have first: "outAlerts ''P1'' (events (poll scenarioPosition 115 calmEnv initialState)) = 1"
    using poll_out_counts(1) [OF scenario_facts(2), of calmEnv initialState] fresh
    by (simp add: scenario_facts(1) initial_untracked outAlerts_def)
  have "lastNotified (getStatus (poll scenarioPosition 115 calmEnv initialState)
      (publicKey scenarioPosition))"
    using poll_alert(2) [OF scenario_facts(2) fresh ok] by simp
  then have second: "events (poll scenarioPosition 115 calmEnv
      (poll scenarioPosition 115 calmEnv initialState)) =
      events (poll scenarioPosition 115 calmEnv initialState)"
    using poll_quiet_out(1) [OF scenario_facts(2)] by simp
  have mfresh: "\<not> lastNotified (monitorStatus newMonitor (publicKey scenarioPosition))"
    by (simp add: untracked_not_notified initial_untracked)
  have mfirst: "outAlerts ''P1'' (events (monitorPoll scenarioPosition 115 newMonitor)) = 1"
    using monitorPoll_out(1) [OF scenario_facts(2), of newMonitor] mfresh
    by (simp add: scenario_facts(1) initial_untracked outAlerts_def)
  have msecond: "events (monitorPoll scenarioPosition 115
      (monitorPoll scenarioPosition 115 newMonitor)) =
      events (monitorPoll scenarioPosition 115 newMonitor)"
    using monitorPoll_out(2) [OF scenario_facts(2) monitorPoll_out(3) [OF scenario_facts(2)]]
    by simp
  from first second mfirst msecond show ?thesis
    by (simp add: initial_untracked scenario_facts)
qed

text \<open>
  Claim C1, amended. A position observed out of range while it has no entry gets exactly
  one out-of-range alert on that first poll, and its entry is stored out of range and
  notified; in the module version this needs the rebalance the alert starts not to throw.
  If the next poll finds it out of range again, that poll sends nothing and the entry
  stays notified.
\<close>

theorem first_observation_alerts:
  "(positionStatuses s (publicKey p) = None \<and> \<not> inRange p a \<and>
    snd (rebalanceTry env p) = Inr () \<and> publicKey p' = publicKey p \<and> \<not> inRange p' a' \<longrightarrow>
      outAlerts (publicKey p) (events (poll p a env s)) =
        outAlerts (publicKey p) (events s) + 1 \<and>
      positionStatuses (poll p a env s) (publicKey p) =
        Some \<lparr>isInRange = False, lastNotified = True\<rparr> \<and>
      events (poll p' a' env' (poll p a env s)) = events (poll p a env s) \<and>
      positionStatuses (poll p' a' env' (poll p a env s)) (publicKey p) =
        Some \<lparr>isInRange = False, lastNotified = True\<rparr>) \<and>
   (positionStatuses t (publicKey p) = None \<and> \<not> inRange p a \<and>
    publicKey p' = publicKey p \<and> \<not> inRange p' a' \<longrightarrow>
      outAlerts (publicKey p) (events (monitorPoll p a t)) =
        outAlerts (publicKey p) (events t) + 1 \<and>
      positionStatuses (monitorPoll p a t) (publicKey p) =
        Some \<lparr>isInRange = False, lastNotified = True, positionKey = publicKey p\<rparr> \<and>
      events (monitorPoll p' a' (monitorPoll p a t)) = events (monitorPoll p a t) \<and>
      positionStatuses (monitorPoll p' a' (monitorPoll p a t)) (publicKey p) =
        Some \<lparr>isInRange = False, lastNotified = True, positionKey = publicKey p\<rparr>)"
proof (intro conjI impI)
  assume h: "positionStatuses s (publicKey p) = None \<and> \<not> inRange p a \<and>
    snd (rebalanceTry env p) = Inr () \<and> publicKey p' = publicKey p \<and> \<not> inRange p' a'"
  then have fresh: "\<not> lastNotified (getStatus s (publicKey p))"
    by (simp add: untracked_not_notified)
  from h fresh show "outAlerts (publicKey p) (events (poll p a env s)) =
      outAlerts (publicKey p) (events s) + 1"
    using poll_out_counts(1) [of p a env s] by simp
  from h fresh show stored: "positionStatuses (poll p a env s) (publicKey p) =
      Some \<lparr>isInRange = False, lastNotified = True\<rparr>"
    using poll_stored [of p a s env] by simp
  then have noted: "lastNotified (getStatus (poll p a env s) (publicKey p'))"
    using h by (simp add: getStatus_def)
  with h show "events (poll p' a' env' (poll p a env s)) = events (poll p a env s)"
    using poll_quiet_out(1) [of p' a' "poll p a env s" env'] by simp
  from h noted show "positionStatuses (poll p' a' env' (poll p a env s)) (publicKey p) =
      Some \<lparr>isInRange = False, lastNotified = True\<rparr>"
    using poll_stored_quiet [of p' a' "poll p a env s" env'] by simp
next
  assume h: "positionStatuses t (publicKey p) = None \<and> \<not> inRange p a \<and>
    publicKey p' = publicKey p \<and> \<not> inRange p' a'"
  then have fresh: "\<not> lastNotified (monitorStatus t (publicKey p))"
    by (simp add: untracked_not_notified)
  from h fresh show "outAlerts (publicKey p) (events (monitorPoll p a t)) =
      outAlerts (publicKey p) (events t) + 1"
    using monitorPoll_out(1) [of p a t] by simp
  from h show stored: "positionStatuses (monitorPoll p a t) (publicKey p) =
      Some \<lparr>isInRange = False, lastNotified = True, positionKey = publicKey p\<rparr>"
    using monitorPoll_stored [of p a t] by simp
  then have noted: "lastNotified (monitorStatus (monitorPoll p a t) (publicKey p'))"
    using h by (simp add: monitorStatus_def)
  with h show "events (monitorPoll p' a' (monitorPoll p a t)) = events (monitorPoll p a t)"
    using monitorPoll_out(2) [of p' a' "monitorPoll p a t"] by simp
  from h stored show "positionStatuses (monitorPoll p' a' (monitorPoll p a t)) (publicKey p) =
      Some \<lparr>isInRange = False, lastNotified = True, positionKey = publicKey p\<rparr>"
    using monitorPoll_stored_quiet [of p' a' "monitorPoll p a t"
        "\<lparr>isInRange = False, lastNotified = True, positionKey = publicKey p\<rparr>"]
    by simp
qed

theorem first_observation_alerts_witness:
  "positionStatuses initialState ''P1'' = None \<and>
   \<not> inRange scenarioPosition 115 \<and>
   snd (rebalanceTry calmEnv scenarioPosition) = Inr () \<and>
   outAlerts ''P1'' (events (poll scenarioPosition 115 calmEnv initialState)) = 1 \<and>
   positionStatuses (poll scenarioPosition 115 calmEnv initialState) ''P1'' =
     Some \<lparr>isInRange = False, lastNotified = True\<rparr> \<and>
   events (poll scenarioPosition 115 swapFailsEnv
      (poll scenarioPosition 115 calmEnv initialState)) =
     events (poll scenarioPosition 115 calmEnv initialState) \<and>
   positionStatuses newMonitor ''P1'' = None \<and>
   outAlerts ''P1'' (events (monitorPoll scenarioPosition 115 newMonitor)) = 1 \<and>
   events (monitorPoll scenarioPosition 115 (monitorPoll scenarioPosition 115 newMonitor)) =
     events (monitorPoll scenarioPosition 115 newMonitor)"
  using first_observation_alerts
      [where s = initialState and p = scenarioPosition and a = 115 and env = calmEnv
         and p' = scenarioPosition and a' = 115 and env' = swapFailsEnv and t = newMonitor]
  by (simp add: scenario_facts initial_untracked calm_run outAlerts_def)

text \<open>
  Claim C2 as stated fails in the module version: when the rebalance that an alert starts
  throws, the status is not stored, and the next poll of the same out-of-range streak
  sends the alert again.
\<close>

theorem one_alert_per_streak_counterexample:
  "\<not> inRange scenarioPosition 115 \<and>
   outAlerts ''P1'' (events (polls
      [(scenarioPosition, 115, removalThrowsEnv), (scenarioPosition, 115, removalThrowsEnv)]
      initialState)) = 2"
proof -
  have bad: "snd (rebalanceTry removalThrowsEnv scenarioPosition) = Inl (Error ''rpc'')"
    by (simp add: removalThrows_run)
  have fresh: "\<not> lastNotified (getStatus initialState (publicKey scenarioPosition))"
    by (simp add: untracked_not_notified initial_untracked)
  have same: "positionStatuses (poll scenarioPosition 115 removalThrowsEnv initialState) =
      positionStatuses initialState"
    using poll_alert(3) [OF scenario_facts(2) fresh bad] by (simp add: initial_untracked)
  then have fresh': "\<not> lastNotified
      (getStatus (poll scenarioPosition 115 removalThrowsEnv initialState)
         (publicKey scenarioPosition))"
    by (simp add: untracked_not_notified initial_untracked)
  have "outAlerts ''P1'' (events (poll scenarioPosition 115 removalThrowsEnv initialState)) = 1"
    using poll_out_counts(1) [OF scenario_facts(2), of removalThrowsEnv initialState] fresh
    by (simp add: scenario_facts(1) initial_untracked outAlerts_def)
  moreover have "outAlerts ''P1'' (events (poll scenarioPosition 115 removalThrowsEnv
      (poll scenarioPosition 115 removalThrowsEnv initialState))) =
      outAlerts ''P1'' (events (poll scenarioPosition 115 removalThrowsEnv initialState)) + 1"
    using poll_out_counts(1) [OF scenario_facts(2), of removalThrowsEnv
        "poll scenarioPosition 115 removalThrowsEnv initialState"] fresh'
    by (simp add: scenario_facts(1))
  ultimately show ?thesis
    by (simp add: scenario_facts)
qed

text \<open>
  Claim C2, amended. Over polls of one position that all find it out of range, at most
  one out-of-range alert is sent, in the module version provided that no rebalance
  throws; over polls that all find it in range, at most one back-in-range alert is sent.
  In one poll, notified goes from false to true only with an out-of-range alert sent in
  that poll, and from true to false only with a back-in-range alert sent in that poll.
\<close>

theorem one_alert_per_streak:
  "((\<forall>(p, a, env)\<in>set os.
        publicKey p = k \<and> \<not> inRange p a \<and> snd (rebalanceTry env p) = Inr ()) \<longrightarrow>
      outAlerts k (events (polls os s)) \<le> outAlerts k (events s) + 1) \<and>
   ((\<forall>(p, a, env)\<in>set os. publicKey p = k \<and> inRange p a) \<longrightarrow>
      backAlerts k (events (polls os s)) \<le> backAlerts k (events s) + 1) \<and>
   (\<not> lastNotified (getStatus s (publicKey p)) \<and>
    lastNotified (getStatus (poll p a env s) (publicKey p)) \<longrightarrow>
      outAlerts (publicKey p) (events (poll p a env s)) =
        outAlerts (publicKey p) (events s) + 1) \<and>
   (lastNotified (getStatus s (publicKey p)) \<and>
    \<not> lastNotified (getStatus (poll p a env s) (publicKey p)) \<longrightarrow>
      backAlerts (publicKey p) (events (poll p a env s)) =
        backAlerts (publicKey p) (events s) + 1) \<and>
   ((\<forall>(p, a)\<in>set ms. publicKey p = k \<and> \<not> inRange p a) \<longrightarrow>
      outAlerts k (events (monitorPolls ms t)) \<le> outAlerts k (events t) + 1) \<and>
   ((\<forall>(p, a)\<in>set ms. publicKey p = k \<and> inRange p a) \<longrightarrow>
      backAlerts k (events (monitorPolls ms t)) \<le> backAlerts k (events t) + 1) \<and>
   (\<not> lastNotified (monitorStatus t (publicKey p)) \<and>
    lastNotified (monitorStatus (monitorPoll p a t) (publicKey p)) \<longrightarrow>
      outAlerts (publicKey p) (events (monitorPoll p a t)) =
        outAlerts (publicKey p) (events t) + 1) \<and>
   (lastNotified (monitorStatus t (publicKey p)) \<and>
    \<not> lastNotified (monitorStatus (monitorPoll p a t) (publicKey p)) \<longrightarrow>
      backAlerts (publicKey p) (events (monitorPoll p a t)) =
        backAlerts (publicKey p) (events t) + 1)"
  using polls_out_once [of os k s] polls_in_once [of os k s]
    poll_notified_rises [of s p a env] poll_notified_falls [of s p a env]
    monitorPolls_out_once [of ms k t] monitorPolls_in_once [of ms k t]
    monitorPoll_notified_rises [of t p a] monitorPoll_notified_falls [of t p a]
  by blast

lemma tracked_facts:
  "getStatus trackedState ''P1'' = \<lparr>isInRange = False, lastNotified = True\<rparr>"
  "monitorStatus trackedMonitor ''P1'' =
     \<lparr>isInRange = False, lastNotified = True, positionKey = ''P1''\<rparr>"
  "events trackedState = []" "events trackedMonitor = []"
  by (simp_all add: trackedState_def trackedMonitor_def getStatus_def monitorStatus_def)

theorem one_alert_per_streak_witness:
  "outAlerts ''P1'' (events (polls
      [(scenarioPosition, 115, calmEnv), (scenarioPosition, 115, calmEnv)] initialState)) \<le> 1 \<and>
   backAlerts ''P1'' (events (polls
      [(scenarioPosition, 105, calmEnv), (scenarioPosition, 105, calmEnv)] trackedState)) \<le> 1 \<and>
   \<not> lastNotified (getStatus initialState ''P1'') \<and>
   lastNotified (getStatus (poll scenarioPosition 115 calmEnv initialState) ''P1'') \<and>
   outAlerts ''P1'' (events (poll scenarioPosition 115 calmEnv initialState)) = 1 \<and>
   lastNotified (getStatus trackedState ''P1'') \<and>
   \<not> lastNotified (getStatus (poll scenarioPosition 105 calmEnv trackedState) ''P1'') \<and>
   backAlerts ''P1'' (events (poll scenarioPosition 105 calmEnv trackedState)) = 1 \<and>
   outAlerts ''P1'' (events (monitorPolls
      [(scenarioPosition, 115), (scenarioPosition, 115)] newMonitor)) \<le> 1 \<and>
   backAlerts ''P1'' (events (monitorPolls
      [(scenarioPosition, 105), (scenarioPosition, 105)] trackedMonitor)) \<le> 1 \<and>
   lastNotified (monitorStatus (monitorPoll scenarioPosition 115 newMonitor) ''P1'') \<and>
   outAlerts ''P1'' (events (monitorPoll scenarioPosition 115 newMonitor)) = 1 \<and>
   \<not> lastNotified (monitorStatus (monitorPoll scenarioPosition 105 trackedMonitor) ''P1'') \<and>
   backAlerts ''P1'' (events (monitorPoll scenarioPosition 105 trackedMonitor)) = 1"
proof -
  have ok: "snd (rebalanceTry calmEnv scenarioPosition) = Inr ()"
    by (simp add: calm_run)
  have fresh: "\<not> lastNotified (getStatus initialState ''P1'')"
      "\<not> lastNotified (monitorStatus newMonitor ''P1'')"
    by (simp_all add: untracked_not_notified initial_untracked)
  have up: "lastNotified (getStatus (poll scenarioPosition 115 calmEnv initialState) ''P1'')"
    using poll_alert(2) [OF scenario_facts(2) _ ok, of initialState] fresh
    by (simp add: scenario_facts(1))
  have down: "\<not> lastNotified (getStatus (poll scenarioPosition 105 calmEnv trackedState) ''P1'')"
    using poll_back(2) [OF scenario_facts(3), of trackedState calmEnv]
    by (simp add: scenario_facts(1) tracked_facts)
  have mup: "lastNotified (monitorStatus (monitorPoll scenarioPosition 115 newMonitor) ''P1'')"
    using monitorPoll_out(3) [OF scenario_facts(2), of newMonitor]
    by (simp add: scenario_facts(1))
  have mdown: "\<not> lastNotified (monitorStatus (monitorPoll scenarioPosition 105 trackedMonitor) ''P1'')"
    using monitorPoll_in(3) [OF scenario_facts(3), of trackedMonitor]
    by (simp add: scenario_facts(1))
  from one_alert_per_streak
      [where os = "[(scenarioPosition, 115, calmEnv), (scenarioPosition, 115, calmEnv)]"
         and k = "''P1''" and s = initialState and p = scenarioPosition and a = 115
         and env = calmEnv
         and ms = "[(scenarioPosition, 115), (scenarioPosition, 115)]" and t = newMonitor]
    ok fresh up mup
  have outs: "outAlerts ''P1'' (events (polls
        [(scenarioPosition, 115, calmEnv), (scenarioPosition, 115, calmEnv)] initialState)) \<le> 1 \<and>
      outAlerts ''P1'' (events (poll scenarioPosition 115 calmEnv initialState)) = 1 \<and>
      outAlerts ''P1'' (events (monitorPolls
        [(scenarioPosition, 115), (scenarioPosition, 115)] newMonitor)) \<le> 1 \<and>
      outAlerts ''P1'' (events (monitorPoll scenarioPosition 115 newMonitor)) = 1"
    by (simp add: scenario_facts initial_untracked outAlerts_def)
  from one_alert_per_streak
      [where os = "[(scenarioPosition, 105, calmEnv), (scenarioPosition, 105, calmEnv)]"
         and k = "''P1''" and s = trackedState and p = scenarioPosition and a = 105
         and env = calmEnv
         and ms = "[(scenarioPosition, 105), (scenarioPosition, 105)]" and t = trackedMonitor]
    down mdown
  have backs: "backAlerts ''P1'' (events (polls
        [(scenarioPosition, 105, calmEnv), (scenarioPosition, 105, calmEnv)] trackedState)) \<le> 1 \<and>
      backAlerts ''P1'' (events (poll scenarioPosition 105 calmEnv trackedState)) = 1 \<and>
      backAlerts ''P1'' (events (monitorPolls
        [(scenarioPosition, 105), (scenarioPosition, 105)] trackedMonitor)) \<le> 1 \<and>
      backAlerts ''P1'' (events (monitorPoll scenarioPosition 105 trackedMonitor)) = 1"
    by (simp add: scenario_facts tracked_facts backAlerts_def)
  from outs backs fresh up down mup mdown show ?thesis
    by (simp add: tracked_facts)
qed

subsection \<open>The stored statuses\<close>

lemma stored_update:
  assumes "\<forall>k st. m k = Some st \<longrightarrow> lastNotified st = (\<not> isInRange st)"
    and "lastNotified v = (\<not> isInRange v)"
  shows "\<forall>k st. (m(k0 \<mapsto> v)) k = Some st \<longrightarrow> lastNotified st = (\<not> isInRange st)"
  using assms by auto

lemma checkLoop_step:
  "(\<exists>s' e. checkLoop a ((p, env) # ps) s = (s', Inl e) \<and>
      positionStatuses s' = positionStatuses s) \<or>
   (\<exists>s' v. checkLoop a ((p, env) # ps) s = checkLoop a ps s' \<and>
      positionStatuses s' = (positionStatuses s)(publicKey p \<mapsto> v) \<and>
      lastNotified v = (\<not> isInRange v))"
proof -
  let ?st = "getStatus s (publicKey p)"
  let ?s1 = "emit [Sent (generateOutOfRangeMessage p a (lowerBinId p) (upperBinId p))] s"
  consider (rise) "\<not> inRange p a" "\<not> lastNotified ?st"
    | (fall) "inRange p a" "lastNotified ?st"
    | (keep) "inRange p a = (\<not> lastNotified ?st)"
    by blast
  then show ?thesis
  proof cases
    case rise
    obtain s' r where run: "rebalancePosition env p ?s1 = (s', r)"
      by (cases "rebalancePosition env p ?s1")
    then have keep: "positionStatuses s' = positionStatuses s"
      using rebalancePosition_keeps(1) [of env p ?s1] by simp
    show ?thesis
    proof (cases r)
      case (Inl e)
      with rise run keep show ?thesis
        by (simp add: Let_def)
    next
      case (Inr u)
      let ?v = "?st\<lparr>lastNotified := True, isInRange := inRange p a\<rparr>"
      from Inr rise run
      have "checkLoop a ((p, env) # ps) s = checkLoop a ps (setStatus (publicKey p) ?v s')"
        by (simp add: Let_def)
      moreover from keep
      have "positionStatuses (setStatus (publicKey p) ?v s') =
          (positionStatuses s)(publicKey p \<mapsto> ?v)"
        by simp
      moreover from rise have "lastNotified ?v = (\<not> isInRange ?v)"
        by simp
      ultimately show ?thesis
        by blast
    qed
  next
    case fall
    let ?v = "?st\<lparr>lastNotified := False, isInRange := inRange p a\<rparr>"
    let ?s2 = "emit [Sent (BackInRange (publicKey p) a)] s"
    from fall
    have "checkLoop a ((p, env) # ps) s = checkLoop a ps (setStatus (publicKey p) ?v ?s2)"
      by (simp add: Let_def)
    moreover
    have "positionStatuses (setStatus (publicKey p) ?v ?s2) =
        (positionStatuses s)(publicKey p \<mapsto> ?v)"
      by simp
    moreover from fall have "lastNotified ?v = (\<not> isInRange ?v)"
      by simp
    ultimately show ?thesis
      by blast
  next
    case keep
    let ?v = "?st\<lparr>isInRange := inRange p a\<rparr>"
    from keep
    have "checkLoop a ((p, env) # ps) s = checkLoop a ps (setStatus (publicKey p) ?v s)"
      by (auto simp: Let_def)
    moreover
    have "positionStatuses (setStatus (publicKey p) ?v s) =
        (positionStatuses s)(publicKey p \<mapsto> ?v)"
      by simp
    moreover from keep have "lastNotified ?v = (\<not> isInRange ?v)"
      by simp
    ultimately show ?thesis
      by blast
  qed
qed

lemma checkLoop_stored:
  assumes "\<forall>k st. positionStatuses s k = Some st \<longrightarrow> lastNotified st = (\<not> isInRange st)"
  shows "\<forall>k st. positionStatuses (fst (checkLoop a ps s)) k = Some st \<longrightarrow>
           lastNotified st = (\<not> isInRange st)"
  using assms
proof (induction ps arbitrary: s)
  case Nil
  then show ?case by simp
next
  case (Cons pe ps)
  obtain p env where pe: "pe = (p, env)"
    by (cases pe)
  from checkLoop_step [of a p env ps s] show ?case
  proof (elim disjE exE conjE)
    fix s' e
    assume "checkLoop a ((p, env) # ps) s = (s', Inl e)"
      and "positionStatuses s' = positionStatuses s"
    with Cons.prems pe show ?thesis by simp
  next
    fix s' v
    assume run: "checkLoop a ((p, env) # ps) s = checkLoop a ps s'"
      and upd: "positionStatuses s' = (positionStatuses s)(publicKey p \<mapsto> v)"
      and v: "lastNotified v = (\<not> isInRange v)"
    from stored_update [OF Cons.prems v, of "publicKey p"] upd
    have "\<forall>k st. positionStatuses s' k = Some st \<longrightarrow> lastNotified st = (\<not> isInRange st)"
      by simp
    from Cons.IH [OF this] run pe show ?thesis by simp
  qed
qed

lemma checkPositions_stored:
  assumes "\<forall>k st. positionStatuses s k = Some st \<longrightarrow> lastNotified st = (\<not> isInRange st)"
  shows "\<forall>k st. positionStatuses (checkPositions cenv s) k = Some st \<longrightarrow>
           lastNotified st = (\<not> isInRange st)"
proof (cases "positions_result cenv")
  case (Inl e)
  with assms show ?thesis by (simp add: checkPositions_def)
next
  case ps: (Inr ps)
  show ?thesis
  proof (cases "activeBin_result cenv")
    case (Inl e)
    with ps assms show ?thesis by (simp add: checkPositions_def)
  next
    case (Inr a)
    obtain s' r where run: "checkLoop a ps s = (s', r)"
      by (cases "checkLoop a ps s")
    with checkLoop_stored [OF assms, of a ps]
    have "\<forall>k st. positionStatuses s' k = Some st \<longrightarrow> lastNotified st = (\<not> isInRange st)"
      by simp
    with ps Inr run show ?thesis
      by (cases r) (simp_all add: checkPositions_def)
  qed
qed

lemma cycles_stored:
  assumes "\<forall>k st. positionStatuses s k = Some st \<longrightarrow> lastNotified st = (\<not> isInRange st)"
  shows "\<forall>k st. positionStatuses (cycles cs s) k = Some st \<longrightarrow>
           lastNotified st = (\<not> isInRange st)"
  using assms
proof (induction cs arbitrary: s)
  case Nil
  then show ?case by simp
next
  case (Cons c cs)
  from Cons.IH [OF checkPositions_stored [OF Cons.prems, of c]] show ?case
    by simp
qed

lemma monitorLoop_step:
  "\<exists>t' v. monitorLoop a (p # ps) t = monitorLoop a ps t' \<and>
      positionStatuses t' = (positionStatuses t)(publicKey p \<mapsto> v) \<and>
      lastNotified v = (\<not> isInRange v)"
proof -
  let ?st = "monitorStatus t (publicKey p)"
  consider (rise) "\<not> inRange p a" "\<not> lastNotified ?st"
    | (fall) "inRange p a" "lastNotified ?st"
    | (keep) "inRange p a = (\<not> lastNotified ?st)"
    by blast
  then show ?thesis
  proof cases
    case rise
    let ?v = "?st\<lparr>lastNotified := True, isInRange := inRange p a\<rparr>"
    let ?t2 = "emit [Sent (generateOutOfRangeMessage p a (lowerBinId p) (upperBinId p))] t"
    from rise
    have "monitorLoop a (p # ps) t = monitorLoop a ps (setStatus (publicKey p) ?v ?t2)"
      by (simp add: Let_def)
    moreover
    have "positionStatuses (setStatus (publicKey p) ?v ?t2) =
        (positionStatuses t)(publicKey p \<mapsto> ?v)"
      by simp
    moreover from rise have "lastNotified ?v = (\<not> isInRange ?v)"
      by simp
    ultimately show ?thesis
      by blast
  next
    case fall
    let ?v = "?st\<lparr>lastNotified := False, isInRange := inRange p a\<rparr>"
    let ?t2 = "emit [Sent (BackInRange (publicKey p) a)] t"
    from fall
    have "monitorLoop a (p # ps) t = monitorLoop a ps (setStatus (publicKey p) ?v ?t2)"
      by (simp add: Let_def)
    moreover
    have "positionStatuses (setStatus (publicKey p) ?v ?t2) =
        (positionStatuses t)(publicKey p \<mapsto> ?v)"
      by simp
    moreover from fall have "lastNotified ?v = (\<not> isInRange ?v)"
      by simp
    ultimately show ?thesis
      by blast
  next
    case keep
    let ?v = "?st\<lparr>isInRange := inRange p a\<rparr>"
    from keep
    have "monitorLoop a (p # ps) t = monitorLoop a ps (setStatus (publicKey p) ?v t)"
      by (auto simp: Let_def)
    moreover
    have "positionStatuses (setStatus (publicKey p) ?v t) =
        (positionStatuses t)(publicKey p \<mapsto> ?v)"
      by simp
    moreover from keep have "lastNotified ?v = (\<not> isInRange ?v)"
      by simp
    ultimately show ?thesis
      by blast
  qed
qed

lemma monitorLoop_stored:
  assumes "\<forall>k st. positionStatuses t k = Some st \<longrightarrow> lastNotified st = (\<not> isInRange st)"
  shows "\<forall>k st. positionStatuses (monitorLoop a ps t) k = Some st \<longrightarrow>
           lastNotified st = (\<not> isInRange st)"
  using assms
proof (induction ps arbitrary: t)
  case Nil
  then show ?case by simp
next
  case (Cons p ps)
  from monitorLoop_step [of a p ps t] obtain t' v
    where run: "monitorLoop a (p # ps) t = monitorLoop a ps t'"
      and upd: "positionStatuses t' = (positionStatuses t)(publicKey p \<mapsto> v)"
      and v: "lastNotified v = (\<not> isInRange v)"
    by blast
  from stored_update [OF Cons.prems v, of "publicKey p"] upd
  have "\<forall>k st. positionStatuses t' k = Some st \<longrightarrow> lastNotified st = (\<not> isInRange st)"
    by simp
  from Cons.IH [OF this] run show ?case by simp
qed

lemma monitorCheckPositions_stored:
  assumes "\<forall>k st. positionStatuses t k = Some st \<longrightarrow> lastNotified st = (\<not> isInRange st)"
  shows "\<forall>k st. positionStatuses (monitorCheckPositions menv t) k = Some st \<longrightarrow>
           lastNotified st = (\<not> isInRange st)"
  using assms monitorLoop_stored [OF assms]
  by (simp add: monitorCheckPositions_def split: sum.splits)

lemma monitorCycles_stored:
  assumes "\<forall>k st. positionStatuses t k = Some st \<longrightarrow> lastNotified st = (\<not> isInRange st)"
  shows "\<forall>k st. positionStatuses (monitorCycles ms t) k = Some st \<longrightarrow>
           lastNotified st = (\<not> isInRange st)"
  using assms
proof (induction ms arbitrary: t)
  case Nil
  then show ?case by simp
next
  case (Cons c cs)
  from Cons.IH [OF monitorCheckPositions_stored [OF Cons.prems, of c]] show ?case
    by simp
qed

text \<open>
  Claim C10. From the empty map, after any cycles, those cut short by an error included,
  every stored entry that is out of range is notified, in both versions: an entry out of
  range and not notified is never stored.
\<close>

theorem stored_out_of_range_is_notified:
  "(\<forall>k st. positionStatuses (cycles cs initialState) k = Some st \<longrightarrow>
      \<not> isInRange st \<longrightarrow> lastNotified st) \<and>
   (\<forall>k st. positionStatuses (monitorCycles ms newMonitor) k = Some st \<longrightarrow>
      \<not> isInRange st \<longrightarrow> lastNotified st)"
proof -
  have "\<forall>k st. positionStatuses initialState k = Some st \<longrightarrow>
      lastNotified st = (\<not> isInRange st)"
    by (simp add: initialState_def)
  from cycles_stored [OF this, of cs] have module: "\<forall>k st.
      positionStatuses (cycles cs initialState) k = Some st \<longrightarrow>
      \<not> isInRange st \<longrightarrow> lastNotified st"
    by blast
  have "\<forall>k st. positionStatuses newMonitor k = Some st \<longrightarrow>
      lastNotified st = (\<not> isInRange st)"
    by (simp add: newMonitor_def)
  from monitorCycles_stored [OF this, of ms] have "\<forall>k st.
      positionStatuses (monitorCycles ms newMonitor) k = Some st \<longrightarrow>
      \<not> isInRange st \<longrightarrow> lastNotified st"
    by blast
  with module show ?thesis
    by blast
qed

lemma cycle_polls:
  "checkPositions abortedCycle s = poll scenarioPosition 115 removalThrowsEnv s"
  "checkPositions completedCycle s = poll scenarioPosition 115 calmEnv s"
  "monitorCheckPositions outOfRangeRound t = monitorPoll scenarioPosition 115 t"
  by (simp_all add: abortedCycle_def completedCycle_def outOfRangeRound_def poll_def
      monitorPoll_def)

theorem stored_out_of_range_is_notified_witness:
  "positionStatuses (cycles [abortedCycle] initialState) ''P1'' = None \<and>
   (\<exists>st. positionStatuses (cycles [abortedCycle, completedCycle] initialState) ''P1'' = Some st \<and>
      \<not> isInRange st \<and> lastNotified st) \<and>
   (\<exists>st. positionStatuses (monitorCycles [outOfRangeRound] newMonitor) ''P1'' = Some st \<and>
      \<not> isInRange st \<and> lastNotified st)"
proof -
  have bad: "snd (rebalanceTry removalThrowsEnv scenarioPosition) = Inl (Error ''rpc'')"
    by (simp add: removalThrows_run)
  have ok: "snd (rebalanceTry calmEnv scenarioPosition) = Inr ()"
    by (simp add: calm_run)
  have fresh: "\<not> lastNotified (getStatus initialState (publicKey scenarioPosition))"
    by (simp add: untracked_not_notified initial_untracked)
  have same: "positionStatuses (poll scenarioPosition 115 removalThrowsEnv initialState) =
      positionStatuses initialState"
    using poll_alert(3) [OF scenario_facts(2) fresh bad] by (simp add: initial_untracked)
  then have fresh': "\<not> lastNotified
      (getStatus (poll scenarioPosition 115 removalThrowsEnv initialState)
         (publicKey scenarioPosition))"
    by (simp add: untracked_not_notified initial_untracked)
  have one: "positionStatuses (cycles [abortedCycle] initialState) ''P1'' = None"
    using same by (simp add: cycle_polls initial_untracked)
  have two: "positionStatuses (cycles [abortedCycle, completedCycle] initialState) ''P1'' =
      Some \<lparr>isInRange = False, lastNotified = True\<rparr>"
    using poll_stored [OF scenario_facts(2) fresh' ok]
    by (simp add: cycle_polls scenario_facts(1))
  have three: "positionStatuses (monitorCycles [outOfRangeRound] newMonitor) ''P1'' =
      Some \<lparr>isInRange = False, lastNotified = True, positionKey = ''P1''\<rparr>"
    using monitorPoll_stored [OF scenario_facts(2), of newMonitor]
    by (simp add: cycle_polls scenario_facts(1) initial_untracked)
  from stored_out_of_range_is_notified
      [of "[abortedCycle, completedCycle]" "[outOfRangeRound]"] one two three
  show ?thesis
    by simp
qed

end
